theory Spec2Isabelle
  imports Complex_Main
begin

section \<open>Numbers\<close>

text \<open>
  A JavaScript Number is a finite value, carried as the real number it denotes, or one of
  the three non-finite values. The arithmetic of Numbers rounds, overflows and underflows
  as section "Double precision" says. The coordinate transform is written over exact real
  arithmetic, which is the reading its property is stated in, and the key of a point of the
  analysis is computed on the reals.
\<close>

datatype number = Fin real | NaN | PosInf | NegInf

fun isFinite :: "number \<Rightarrow> bool" where
  "isFinite (Fin r) = True"
| "isFinite NaN = False"
| "isFinite PosInf = False"
| "isFinite NegInf = False"

text \<open>\<^verbatim>\<open>Math.min\<close> and \<^verbatim>\<open>Math.max\<close> of two Numbers.\<close>

fun Math_min :: "number \<Rightarrow> number \<Rightarrow> number" where
  "Math_min NaN _ = NaN"
| "Math_min _ NaN = NaN"
| "Math_min NegInf _ = NegInf"
| "Math_min _ NegInf = NegInf"
| "Math_min PosInf v = v"
| "Math_min u PosInf = u"
| "Math_min (Fin a) (Fin b) = Fin (min a b)"

fun Math_max :: "number \<Rightarrow> number \<Rightarrow> number" where
  "Math_max NaN _ = NaN"
| "Math_max _ NaN = NaN"
| "Math_max PosInf _ = PosInf"
| "Math_max _ PosInf = PosInf"
| "Math_max NegInf v = v"
| "Math_max u NegInf = u"
| "Math_max (Fin a) (Fin b) = Fin (max a b)"

section \<open>Double precision\<close>

text \<open>
  A finite Number is a binary64 value: an integer of magnitude below \<open>2\<^sup>5\<^sup>3\<close> times a power of
  two from \<open>2\<^sup>-\<^sup>1\<^sup>0\<^sup>7\<^sup>4\<close> to \<open>2\<^sup>9\<^sup>7\<^sup>1\<close>. The operators \<^verbatim>\<open>+ - * /\<close> take the exact result and
  round it to the nearest such value, a tie to the even integer; a result that rounds to a
  magnitude of \<open>2\<^sup>1\<^sup>0\<^sup>2\<^sup>4\<close> or more is an infinity, one of magnitude below \<open>2\<^sup>-\<^sup>1\<^sup>0\<^sup>7\<^sup>5\<close> is zero.

  \<open>rhe\<close> rounds to the nearest integer, a half to the even one; \<open>ulp_exp\<close> is the exponent
  of the spacing of the binary64 values around a real; \<open>nearest\<close> is the nearest multiple
  of that spacing and \<open>rnd\<close> the rounded Number. The sign of a zero is not kept: a division
  by zero takes the zero as positive.
\<close>

definition rhe :: "real \<Rightarrow> int" where
  "rhe q =
     (if q - of_int \<lfloor>q\<rfloor> < 1 / 2 then \<lfloor>q\<rfloor>
      else if 1 / 2 < q - of_int \<lfloor>q\<rfloor> then \<lfloor>q\<rfloor> + 1
      else if even \<lfloor>q\<rfloor> then \<lfloor>q\<rfloor>
      else \<lfloor>q\<rfloor> + 1)"

definition ulp_exp :: "real \<Rightarrow> int" where
  "ulp_exp x = max \<lfloor>log 2 \<bar>x\<bar>\<rfloor> (- 1022) - 52"

definition nearest :: "real \<Rightarrow> real" where
  "nearest x = of_int (rhe (x / 2 powi ulp_exp x)) * 2 powi ulp_exp x"

definition rnd :: "real \<Rightarrow> number" where
  "rnd x =
     (if x = 0 then Fin 0
      else if 2 ^ 1024 \<le> \<bar>nearest x\<bar> then (if 0 < x then PosInf else NegInf)
      else Fin (nearest x))"

fun dneg :: "number \<Rightarrow> number" where
  "dneg (Fin a) = Fin (- a)"
| "dneg NaN = NaN"
| "dneg PosInf = NegInf"
| "dneg NegInf = PosInf"

fun dadd :: "number \<Rightarrow> number \<Rightarrow> number" where
  "dadd NaN _ = NaN"
| "dadd _ NaN = NaN"
| "dadd (Fin a) (Fin b) = rnd (a + b)"
| "dadd PosInf NegInf = NaN"
| "dadd NegInf PosInf = NaN"
| "dadd PosInf _ = PosInf"
| "dadd NegInf _ = NegInf"
| "dadd (Fin a) PosInf = PosInf"
| "dadd (Fin a) NegInf = NegInf"

definition dsub :: "number \<Rightarrow> number \<Rightarrow> number" where
  "dsub u v = dadd u (dneg v)"

fun dmul :: "number \<Rightarrow> number \<Rightarrow> number" where
  "dmul NaN _ = NaN"
| "dmul _ NaN = NaN"
| "dmul (Fin a) (Fin b) = rnd (a * b)"
| "dmul (Fin a) PosInf = (if a = 0 then NaN else if 0 < a then PosInf else NegInf)"
| "dmul (Fin a) NegInf = (if a = 0 then NaN else if 0 < a then NegInf else PosInf)"
| "dmul PosInf (Fin b) = (if b = 0 then NaN else if 0 < b then PosInf else NegInf)"
| "dmul NegInf (Fin b) = (if b = 0 then NaN else if 0 < b then NegInf else PosInf)"
| "dmul PosInf PosInf = PosInf"
| "dmul PosInf NegInf = NegInf"
| "dmul NegInf PosInf = NegInf"
| "dmul NegInf NegInf = PosInf"

fun ddiv :: "number \<Rightarrow> number \<Rightarrow> number" where
  "ddiv NaN _ = NaN"
| "ddiv _ NaN = NaN"
| "ddiv (Fin a) (Fin b) =
     (if b = 0 then (if a = 0 then NaN else if 0 < a then PosInf else NegInf) else rnd (a / b))"
| "ddiv (Fin a) PosInf = Fin 0"
| "ddiv (Fin a) NegInf = Fin 0"
| "ddiv PosInf (Fin b) = (if 0 \<le> b then PosInf else NegInf)"
| "ddiv NegInf (Fin b) = (if 0 \<le> b then NegInf else PosInf)"
| "ddiv PosInf PosInf = NaN"
| "ddiv PosInf NegInf = NaN"
| "ddiv NegInf PosInf = NaN"
| "ddiv NegInf NegInf = NaN"

text \<open>The comparisons \<^verbatim>\<open><\<close> and \<^verbatim>\<open><=\<close>, false on \<^verbatim>\<open>NaN\<close>.\<close>

fun dlt :: "number \<Rightarrow> number \<Rightarrow> bool" where
  "dlt NaN _ = False"
| "dlt _ NaN = False"
| "dlt (Fin a) (Fin b) = (a < b)"
| "dlt (Fin a) PosInf = True"
| "dlt (Fin a) NegInf = False"
| "dlt PosInf _ = False"
| "dlt NegInf (Fin b) = True"
| "dlt NegInf PosInf = True"
| "dlt NegInf NegInf = False"

definition dle :: "number \<Rightarrow> number \<Rightarrow> bool" where
  "dle u v \<longleftrightarrow> dlt u v \<or> (u = v \<and> u \<noteq> NaN)"

text \<open>The literals \<^verbatim>\<open>0.1\<close> and \<^verbatim>\<open>1e-12\<close>: the binary64 values nearest to them.\<close>

definition literal_0_1 :: real where
  "literal_0_1 = 3602879701896397 / 2 ^ 55"

definition literal_1e_12 :: real where
  "literal_1e_12 = 4951760157141521 / 2 ^ 92"

text \<open>
  \<^verbatim>\<open>Math.log10\<close> and \<^verbatim>\<open>Math.pow\<close> are functions of the runtime, which the language
  standard lets approximate: they are parameters of what uses them. \<open>pow10_of\<close> is
  \<^verbatim>\<open>Math.pow(10, Math.floor(l))\<close> from the runtime's powers of ten at integers.
  \<open>log10_rounded\<close> and \<open>pow10_rounded\<close> are those of a runtime that rounds both correctly.
\<close>

definition pow10_of :: "(int \<Rightarrow> number) \<Rightarrow> number \<Rightarrow> number" where
  "pow10_of pow10 l =
     (case l of Fin r \<Rightarrow> pow10 \<lfloor>r\<rfloor> | NaN \<Rightarrow> NaN | PosInf \<Rightarrow> PosInf | NegInf \<Rightarrow> Fin 0)"

definition log10_rounded :: "number \<Rightarrow> number" where
  "log10_rounded v =
     (case v of
        Fin x \<Rightarrow> if x < 0 then NaN else if x = 0 then NegInf else rnd (log 10 x)
      | NaN \<Rightarrow> NaN
      | PosInf \<Rightarrow> PosInf
      | NegInf \<Rightarrow> NaN)"

definition pow10_rounded :: "int \<Rightarrow> number" where
  "pow10_rounded k = rnd (10 powi k)"

section \<open>Transforms and grid\<close>

text \<open>
  The view, with fields that are real numbers where the transform reads it and Numbers
  where \<^verbatim>\<open>fitToData\<close> reads and writes it.
\<close>

record 'a view =
  xMin :: 'a
  xMax :: 'a
  yMin :: 'a
  yMax :: 'a

record transform =
  xScale :: real
  yScale :: real
  xToPx :: "real \<Rightarrow> real"
  yToPx :: "real \<Rightarrow> real"
  pxToX :: "real \<Rightarrow> real"
  pxToY :: "real \<Rightarrow> real"

text \<open>\<^verbatim>\<open>makeTransform({ xMin, xMax, yMin, yMax, width, height })\<close>\<close>

definition makeTransform :: "real view \<Rightarrow> real \<Rightarrow> real \<Rightarrow> transform" where
  "makeTransform v width height =
     (let xScale = width / (xMax v - xMin v);
          yScale = height / (yMax v - yMin v)
      in \<lparr> xScale = xScale, yScale = yScale,
           xToPx = (\<lambda>x. (x - xMin v) * xScale),
           yToPx = (\<lambda>y. height - (y - yMin v) * yScale),
           pxToX = (\<lambda>px. px / xScale + xMin v),
           pxToY = (\<lambda>py. (height - py) / yScale + yMin v) \<rparr>)"

text \<open>
  \<^verbatim>\<open>niceStep(range)\<close>, with the runtime's \<^verbatim>\<open>Math.log10\<close> and powers of ten. \<^verbatim>\<open>r >= 5\<close> is
  \<open>dle (Fin 5) r\<close>.
\<close>

definition niceStep :: "(number \<Rightarrow> number) \<Rightarrow> (int \<Rightarrow> number) \<Rightarrow> number \<Rightarrow> number" where
  "niceStep log10 pow10 rng =
     (let rough = ddiv rng (Fin 10);
          p = pow10_of pow10 (log10 (Math_max rough (Fin literal_1e_12)));
          r = ddiv rough p
      in if dle (Fin 5) r then dmul (Fin 5) p
         else if dle (Fin 2) r then dmul (Fin 2) p
         else dmul (Fin 1) p)"

section \<open>Strings\<close>

text \<open>
  A JavaScript string is a sequence of UTF-16 code units. \<open>js\<close> writes an ASCII literal;
  the glyphs of the source outside ASCII are named below.
\<close>

type_synonym jsstring = "nat list"

definition js :: "string \<Rightarrow> jsstring" where
  "js s = map of_char s"

definition theta_glyph :: nat where "theta_glyph = 952"
definition le_glyph :: nat where "le_glyph = 8804"
definition ge_glyph :: nat where "ge_glyph = 8805"

text \<open>The class \<^verbatim>\<open>\s\<close> of regular expressions, which is also what \<^verbatim>\<open>trim()\<close> strips.\<close>

definition is_space :: "nat \<Rightarrow> bool" where
  "is_space c \<longleftrightarrow>
     c \<in> {9, 10, 11, 12, 13, 32, 160, 5760, 8232, 8233, 8239, 8287, 12288, 65279}
     \<or> (8192 \<le> c \<and> c \<le> 8202)"

text \<open>The line terminators, which \<^verbatim>\<open>.\<close> does not match.\<close>

definition is_line_terminator :: "nat \<Rightarrow> bool" where
  "is_line_terminator c \<longleftrightarrow> c \<in> {10, 13, 8232, 8233}"

text \<open>The class \<^verbatim>\<open>\w\<close>: \<^verbatim>\<open>[A-Za-z0-9_]\<close>.\<close>

definition is_word :: "nat \<Rightarrow> bool" where
  "is_word c \<longleftrightarrow> (48 \<le> c \<and> c \<le> 57) \<or> (65 \<le> c \<and> c \<le> 90) \<or> c = 95 \<or> (97 \<le> c \<and> c \<le> 122)"

definition is_ident_start :: "nat \<Rightarrow> bool" where
  "is_ident_start c \<longleftrightarrow> (65 \<le> c \<and> c \<le> 90) \<or> c = 95 \<or> (97 \<le> c \<and> c \<le> 122)"

definition trim :: "jsstring \<Rightarrow> jsstring" where
  "trim s = rev (dropWhile is_space (rev (dropWhile is_space s)))"

fun startsWith :: "jsstring \<Rightarrow> jsstring \<Rightarrow> bool" where
  "startsWith s [] = True"
| "startsWith [] (p # ps) = False"
| "startsWith (c # cs) (p # ps) = (c = p \<and> startsWith cs ps)"

fun js_includes :: "jsstring \<Rightarrow> jsstring \<Rightarrow> bool" where
  "js_includes [] p = (p = [])"
| "js_includes (c # cs) p = (startsWith (c # cs) p \<or> js_includes cs p)"

text \<open>\<^verbatim>\<open>s.indexOf(p)\<close>, with \<open>None\<close> for \<^verbatim>\<open>-1\<close>.\<close>

fun indexOf :: "jsstring \<Rightarrow> jsstring \<Rightarrow> nat option" where
  "indexOf [] p = (if p = [] then Some 0 else None)"
| "indexOf (c # cs) p = (if startsWith (c # cs) p then Some 0 else map_option Suc (indexOf cs p))"

text \<open>\<^verbatim>\<open>s.split(d)\<close> for a one-unit separator: never empty, \<^verbatim>\<open>"".split(",")\<close> is \<^verbatim>\<open>[""]\<close>.\<close>

fun split_on :: "nat \<Rightarrow> jsstring \<Rightarrow> jsstring list" where
  "split_on d [] = [[]]"
| "split_on d (c # cs) =
     (if c = d then [] # split_on d cs
      else (case split_on d cs of [] \<Rightarrow> [[c]] | p # ps \<Rightarrow> (c # p) # ps))"

text \<open>\<^verbatim>\<open>s.replace(/\<theta>/g, "theta")\<close> and \<^verbatim>\<open>s.replace(/;/g, ",")\<close>.\<close>

fun replace_theta :: "jsstring \<Rightarrow> jsstring" where
  "replace_theta [] = []"
| "replace_theta (c # cs) =
     (if c = theta_glyph then js ''theta'' @ replace_theta cs else c # replace_theta cs)"

definition replace_semicolons :: "jsstring \<Rightarrow> jsstring" where
  "replace_semicolons s = map (\<lambda>c. if c = 59 then 44 else c) s"

text \<open>
  \<^verbatim>\<open>/\bw\b/.test(s)\<close> for a word \<open>w\<close> of word characters: an occurrence of \<open>w\<close> with no
  word character before it and none after it. The flag says whether the unit before the
  current position is a word character.
\<close>

fun has_word_from :: "bool \<Rightarrow> jsstring \<Rightarrow> jsstring \<Rightarrow> bool" where
  "has_word_from prevw w [] = False"
| "has_word_from prevw w (c # cs) =
     ((\<not> prevw \<and> startsWith (c # cs) w
        \<and> (case drop (length w) (c # cs) of [] \<Rightarrow> True | d # _ \<Rightarrow> \<not> is_word d))
      \<or> has_word_from (is_word c) w cs)"

definition has_word :: "jsstring \<Rightarrow> jsstring \<Rightarrow> bool" where
  "has_word w s = has_word_from False w s"

text \<open>
  \<^verbatim>\<open>\s*(.+)$\<close>: greedy white space, then a non-empty rest of the input free of line
  terminators; white space is given back one unit at a time when the rest fails.
\<close>

definition dot_plus_end :: "jsstring \<Rightarrow> jsstring option" where
  "dot_plus_end s = (if s \<noteq> [] \<and> list_all (\<lambda>c. \<not> is_line_terminator c) s then Some s else None)"

fun ws_then_rest :: "jsstring \<Rightarrow> jsstring option" where
  "ws_then_rest [] = None"
| "ws_then_rest (c # cs) =
     (if is_space c
      then (case ws_then_rest cs of Some g \<Rightarrow> Some g | None \<Rightarrow> dot_plus_end (c # cs))
      else dot_plus_end (c # cs))"

text \<open>\<^verbatim>\<open>src.match(/^\s*y\s*=\s*(.+)$/i)\<close>: the first group, or \<open>None\<close> for no match.\<close>

definition match_y_eq :: "jsstring \<Rightarrow> jsstring option" where
  "match_y_eq s =
     (case dropWhile is_space s of
        [] \<Rightarrow> None
      | c # r1 \<Rightarrow>
          if c = 121 \<or> c = 89
          then (case dropWhile is_space r1 of
                  [] \<Rightarrow> None
                | e # r2 \<Rightarrow> if e = 61 then ws_then_rest r2 else None)
          else None)"

text \<open>
  \<^verbatim>\<open>\s*([^,;]+)\<close>: greedy white space, then the longest non-empty run without comma or
  semicolon; a white-space unit given back starts the run.
\<close>

definition not_sep :: "nat \<Rightarrow> bool" where
  "not_sep c \<longleftrightarrow> c \<noteq> 44 \<and> c \<noteq> 59"

fun ws_then_field :: "jsstring \<Rightarrow> jsstring option" where
  "ws_then_field [] = None"
| "ws_then_field (c # cs) =
     (if is_space c
      then (case ws_then_field cs of Some g \<Rightarrow> Some g | None \<Rightarrow> Some (takeWhile not_sep (c # cs)))
      else if not_sep c then Some (takeWhile not_sep (c # cs)) else None)"

text \<open>
  \<^verbatim>\<open>src.match(/\br\s*=\s*([^,;]+)/i)\<close>: the first group of the leftmost match. The flag
  says whether the unit before the current position is a word character.
\<close>

definition match_r_here :: "jsstring \<Rightarrow> jsstring option" where
  "match_r_here r1 =
     (case dropWhile is_space r1 of
        [] \<Rightarrow> None
      | e # r2 \<Rightarrow> if e = 61 then ws_then_field r2 else None)"

fun match_r_from :: "bool \<Rightarrow> jsstring \<Rightarrow> jsstring option" where
  "match_r_from prevw [] = None"
| "match_r_from prevw (c # cs) =
     (case (if \<not> prevw \<and> (c = 114 \<or> c = 82) then match_r_here cs else None) of
        Some g \<Rightarrow> Some g
      | None \<Rightarrow> match_r_from (is_word c) cs)"

definition match_r_eq :: "jsstring \<Rightarrow> jsstring option" where
  "match_r_eq s = match_r_from False s"

text \<open>
  A case-insensitive literal of lower-case ASCII letters, as the \<^verbatim>\<open>i\<close> flag compares it:
  a unit matches a letter when it is that letter or its capital.
\<close>

definition lower :: "nat \<Rightarrow> nat" where
  "lower c = (if 65 \<le> c \<and> c \<le> 90 then c + 32 else c)"

fun startsWith_ci :: "jsstring \<Rightarrow> jsstring \<Rightarrow> bool" where
  "startsWith_ci s [] = True"
| "startsWith_ci [] (p # ps) = False"
| "startsWith_ci (c # cs) (p # ps) = (lower c = p \<and> startsWith_ci cs ps)"

text \<open>
  \<^verbatim>\<open>src.match(/theta\s*(?:in|=)\s*\[\s*([^,\]]+)\s*,\s*([^\]]+)\s*\]/i)\<close>: the two
  groups of the leftmost match. Each group is greedy, so it runs to the first unit its class
  excludes; a shorter group meets the same comma or bracket and cannot succeed where the
  longest fails. White space before a group is given back one unit at a time when the group
  would otherwise be empty.
\<close>

definition in_g1 :: "nat \<Rightarrow> bool" where
  "in_g1 c \<longleftrightarrow> c \<noteq> 44 \<and> c \<noteq> 93"

definition in_g2 :: "nat \<Rightarrow> bool" where
  "in_g2 c \<longleftrightarrow> c \<noteq> 93"

definition g2_here :: "jsstring \<Rightarrow> jsstring option" where
  "g2_here s =
     (if takeWhile in_g2 s = [] \<or> dropWhile in_g2 s = [] then None
      else Some (takeWhile in_g2 s))"

fun ws_then_g2 :: "jsstring \<Rightarrow> jsstring option" where
  "ws_then_g2 [] = None"
| "ws_then_g2 (c # cs) =
     (if is_space c
      then (case ws_then_g2 cs of Some g \<Rightarrow> Some g | None \<Rightarrow> g2_here (c # cs))
      else g2_here (c # cs))"

definition after_g1 :: "jsstring \<Rightarrow> jsstring option" where
  "after_g1 s =
     (case dropWhile is_space s of
        [] \<Rightarrow> None
      | c # r \<Rightarrow> if c = 44 then ws_then_g2 r else None)"

definition g1_here :: "jsstring \<Rightarrow> (jsstring \<times> jsstring) option" where
  "g1_here s =
     (if takeWhile in_g1 s = [] then None
      else map_option (\<lambda>g2. (takeWhile in_g1 s, g2)) (after_g1 (dropWhile in_g1 s)))"

fun ws_then_g1 :: "jsstring \<Rightarrow> (jsstring \<times> jsstring) option" where
  "ws_then_g1 [] = None"
| "ws_then_g1 (c # cs) =
     (if is_space c
      then (case ws_then_g1 cs of Some g \<Rightarrow> Some g | None \<Rightarrow> g1_here (c # cs))
      else g1_here (c # cs))"

definition range_here :: "jsstring \<Rightarrow> (jsstring \<times> jsstring) option" where
  "range_here s =
     (let r1 = dropWhile is_space s;
          r2 = (if startsWith_ci r1 (js ''in'') then Some (drop 2 r1)
                else if startsWith r1 (js ''='') then Some (drop 1 r1)
                else None)
      in case r2 of
           None \<Rightarrow> None
         | Some r3 \<Rightarrow>
             (case dropWhile is_space r3 of
                [] \<Rightarrow> None
              | c # r4 \<Rightarrow> if c = 91 then ws_then_g1 r4 else None))"

fun match_theta_range :: "jsstring \<Rightarrow> (jsstring \<times> jsstring) option" where
  "match_theta_range [] = None"
| "match_theta_range (c # cs) =
     (case (if startsWith_ci (c # cs) (js ''theta'') then range_here (drop 5 (c # cs)) else None) of
        Some g \<Rightarrow> Some g
      | None \<Rightarrow> match_theta_range cs)"

text \<open>\<^verbatim>\<open>/^t\s*=\s*\[/.test(p)\<close>\<close>

definition t_range_test :: "jsstring \<Rightarrow> bool" where
  "t_range_test p =
     (case p of
        [] \<Rightarrow> False
      | c # r1 \<Rightarrow>
          c = 116 \<and>
          (case dropWhile is_space r1 of
             [] \<Rightarrow> False
           | e # r2 \<Rightarrow>
               e = 61 \<and> (case dropWhile is_space r2 of [] \<Rightarrow> False | b # _ \<Rightarrow> b = 91)))"

text \<open>
  \<^verbatim>\<open>s.split(/\s*,\s*/)\<close>: at each position the separator is tried; where it matches, the
  piece read so far ends and reading resumes after the match. \<open>match_comma_sep\<close> is the rest
  of the input after a separator matched at its start.
\<close>

definition match_comma_sep :: "jsstring \<Rightarrow> jsstring option" where
  "match_comma_sep s =
     (case dropWhile is_space s of
        [] \<Rightarrow> None
      | c # r \<Rightarrow> if c = 44 then Some (dropWhile is_space r) else None)"

function split_comma_ws :: "jsstring \<Rightarrow> jsstring \<Rightarrow> jsstring list" where
  "split_comma_ws cur [] = [rev cur]"
| "split_comma_ws cur (c # cs) =
     (case match_comma_sep (c # cs) of
        Some r \<Rightarrow> rev cur # split_comma_ws [] r
      | None \<Rightarrow> split_comma_ws (c # cur) cs)"
  by pat_completeness auto
termination
proof (relation "measure (\<lambda>(cur, s). length s)")
  show "wf (measure (\<lambda>(cur, s). length s))"
    by simp
next
  fix cur :: jsstring and c :: nat and cs r :: jsstring
  assume "match_comma_sep (c # cs) = Some r"
  then obtain r' where d: "dropWhile is_space (c # cs) = 44 # r'" and r: "r = dropWhile is_space r'"
    by (auto simp: match_comma_sep_def split: list.splits if_splits)
  have "length r \<le> length r'"
    unfolding r by (rule length_dropWhile_le)
  moreover have "length (dropWhile is_space (c # cs)) \<le> length (c # cs)"
    by (rule length_dropWhile_le)
  ultimately have "length r < length (c # cs)"
    using d by simp
  then show "(([], r), (cur, c # cs)) \<in> measure (\<lambda>(cur, s). length s)"
    by simp
next
  fix cur :: jsstring and c :: nat and cs :: jsstring
  show "((c # cur, cs), (cur, c # cs)) \<in> measure (\<lambda>(cur, s). length s)"
    by simp
qed

text \<open>
  The comparison operators, in the order of the alternation \<^verbatim>\<open>(<=|>=|<|>|\<le>|\<ge>)\<close> and
  of the array \<^verbatim>\<open>ops\<close>.
\<close>

definition cmp_ops :: "jsstring list" where
  "cmp_ops = [[60, 61], [62, 61], [60], [62], [le_glyph], [ge_glyph]]"

datatype cmp = Le | Ge | Lt | Gt

definition norm :: "jsstring \<Rightarrow> cmp" where
  "norm op =
     (if op = [le_glyph] \<or> op = [60, 61] then Le
      else if op = [ge_glyph] \<or> op = [62, 61] then Ge
      else if op = [60] then Lt
      else Gt)"

text \<open>The alternatives that match at the start of the input, each with the rest after it.\<close>

definition ops_at :: "jsstring \<Rightarrow> (jsstring \<times> jsstring) list" where
  "ops_at s = map (\<lambda>op. (op, drop (length op) s)) (filter (startsWith s) cmp_ops)"

fun first_some :: "'a option list \<Rightarrow> 'a option" where
  "first_some [] = None"
| "first_some (None # xs) = first_some xs"
| "first_some (Some x # xs) = Some x"

definition no_line_terminator :: "jsstring \<Rightarrow> bool" where
  "no_line_terminator s = list_all (\<lambda>c. \<not> is_line_terminator c) s"

text \<open>
  \<^verbatim>\<open>src.match(/^(.*?)(<=|>=|<|>|\<le>|\<ge>)(.*?)(<=|>=|<|>|\<le>|\<ge>)(.*)$/)\<close>: the five groups.
  A lazy \<^verbatim>\<open>.*?\<close> first tries the rest of the pattern where it stands, each alternative in
  order, and only then takes one more unit, which must not be a line terminator.
  \<open>second_op\<close> matches \<^verbatim>\<open>(.*?)(op)(.*)$\<close>, \<open>first_op\<close> the whole pattern; the first argument
  is the lazy group read so far, reversed.
\<close>

fun second_op :: "jsstring \<Rightarrow> jsstring \<Rightarrow> (jsstring \<times> jsstring \<times> jsstring) option" where
  "second_op b [] = None"
| "second_op b (c # cs) =
     (case first_some (map (\<lambda>(op, r). if no_line_terminator r then Some (rev b, op, r) else None)
                          (ops_at (c # cs))) of
        Some m \<Rightarrow> Some m
      | None \<Rightarrow> if is_line_terminator c then None else second_op (c # b) cs)"

fun first_op ::
  "jsstring \<Rightarrow> jsstring \<Rightarrow> (jsstring \<times> jsstring \<times> jsstring \<times> jsstring \<times> jsstring) option" where
  "first_op a [] = None"
| "first_op a (c # cs) =
     (case first_some (map (\<lambda>(op, r). map_option (\<lambda>(b, op2, t). (rev a, op, b, op2, t)) (second_op [] r))
                          (ops_at (c # cs))) of
        Some m \<Rightarrow> Some m
      | None \<Rightarrow> if is_line_terminator c then None else first_op (c # a) cs)"

definition match_double :: "jsstring \<Rightarrow> (jsstring \<times> jsstring \<times> jsstring \<times> jsstring \<times> jsstring) option" where
  "match_double s = first_op [] s"

text \<open>
  \<^verbatim>\<open>ops.map(o => ({ o, i: src.indexOf(o) })).filter(x => x.i !== -1).sort((a, b) => a.i - b.i)[0]\<close>:
  the sort is stable, so of two operators found at the same index the one earlier in
  \<^verbatim>\<open>ops\<close> comes first.
\<close>

definition find_cmp :: "jsstring \<Rightarrow> (jsstring \<times> nat) option" where
  "find_cmp s =
     (case sort_key snd (List.map_filter (\<lambda>op. map_option (\<lambda>i. (op, i)) (indexOf s op)) cmp_ops) of
        [] \<Rightarrow> None
      | m # _ \<Rightarrow> Some m)"

text \<open>\<^verbatim>\<open>detectParams\<close>: the identifiers \<^verbatim>\<open>/[A-Za-z_][A-Za-z0-9_]*/g\<close> finds, left to right.\<close>

function identifiers :: "jsstring \<Rightarrow> jsstring list" where
  "identifiers [] = []"
| "identifiers (c # cs) =
     (if is_ident_start c then (c # takeWhile is_word cs) # identifiers (dropWhile is_word cs)
      else identifiers cs)"
  by pat_completeness auto
termination
  by (relation "measure length") (auto simp: length_dropWhile_le less_Suc_eq_le)

definition RESERVED :: "jsstring list" where
  "RESERVED = map js
     [''x'', ''y'', ''t'', ''theta'', ''ans'', ''pi'', ''e'', ''tau'', ''phi'',
      ''sin'', ''cos'', ''tan'', ''asin'', ''acos'', ''atan'', ''atan2'', ''abs'', ''log'', ''ln'',
      ''exp'', ''sqrt'', ''random'',
      ''min'', ''max'', ''round'', ''floor'', ''ceil'', ''trunc'', ''sign'', ''sgn'', ''if'', ''mod'', ''pow'',
      ''sec'', ''csc'', ''cot'', ''sech'', ''csch'', ''coth'',
      ''sinh'', ''cosh'', ''tanh'', ''asinh'', ''acosh'', ''atanh'',
      ''sind'', ''cosd'', ''tand'', ''asind'', ''acosd'', ''atand'', ''deg'', ''rad'',
      ''log10'', ''log2'', ''logb'',
      ''piecewise'', ''clamp'', ''lerp'', ''heaviside'', ''step'',
      ''fact'', ''factorial'', ''nCr'', ''nPr'']"

definition detectParams :: "jsstring \<Rightarrow> jsstring list" where
  "detectParams s =
     foldl (\<lambda>out name. if name \<in> set RESERVED \<or> name \<in> set out then out else out @ [name])
       [] (identifiers s)"

section \<open>The expression compiler\<close>

text \<open>
  \<^verbatim>\<open>compileExpr(src)\<close> configures a parser of the library \<^verbatim>\<open>expr-eval\<close> and returns
  \<^verbatim>\<open>parser.parse(src)\<close>. The library is not part of the repository, so the compiler is a
  parameter of everything below: it either throws (\<open>Inl\<close> with the message of the exception)
  or returns an expression whose \<^verbatim>\<open>evaluate(bindings)\<close> either throws or returns a Number.
\<close>

type_synonym bindings = "jsstring \<rightharpoonup> number"
type_synonym evaluable = "bindings \<Rightarrow> string + number"
type_synonym compiler = "jsstring \<Rightarrow> string + evaluable"

text \<open>\<^verbatim>\<open>err?.message || "Parse error"\<close>\<close>

definition message_of :: "string \<Rightarrow> string" where
  "message_of msg = (if msg = [] then ''Parse error'' else msg)"

section \<open>Compiled lines\<close>

record expression =
  eid :: nat
  src :: jsstring
  visible :: bool
  params :: bindings

datatype plot_kind = Scalar | Explicit | Implicit | Inequality | DoubleIneq | Parametric | Polar

text \<open>
  The closures a compiled line carries read the variable \<^verbatim>\<open>ans\<close> of the classifier when
  they are called, not when they are made. Their first argument is the value that variable
  holds at the call; the others are the arguments of the JavaScript function.
\<close>

type_synonym fn1 = "real \<Rightarrow> number \<Rightarrow> string + number"
type_synonym fn2 = "real \<Rightarrow> number \<Rightarrow> number \<Rightarrow> string + number"

text \<open>
  The fields a line gets beside \<^verbatim>\<open>params\<close>, \<^verbatim>\<open>paramNames\<close> and \<^verbatim>\<open>error\<close>, one constructor
  for each value of \<^verbatim>\<open>kind\<close>: \<^verbatim>\<open>fn\<close>; \<^verbatim>\<open>fr, thmin, thmax\<close>; \<^verbatim>\<open>fx, fy, tmin, tmax\<close>;
  \<^verbatim>\<open>F1, op1, F2, op2\<close>; \<^verbatim>\<open>F, op\<close>; \<^verbatim>\<open>F\<close>; \<^verbatim>\<open>value\<close>. A function field is \<open>None\<close> where
  the source stores \<^verbatim>\<open>null\<close>.
\<close>

datatype payload =
    ExplicitP "fn1 option"
  | PolarP "fn1 option" number number
  | ParametricP "fn1 option" "fn1 option" number number
  | DoubleIneqP "fn2 option" cmp "fn2 option" cmp
  | InequalityP "fn2 option" cmp
  | ImplicitP "fn2 option"
  | ScalarP number

fun kind :: "payload \<Rightarrow> plot_kind" where
  "kind (ExplicitP f) = Explicit"
| "kind (PolarP f a b) = Polar"
| "kind (ParametricP f g a b) = Parametric"
| "kind (DoubleIneqP f p g q) = DoubleIneq"
| "kind (InequalityP f p) = Inequality"
| "kind (ImplicitP f) = Implicit"
| "kind (ScalarP v) = Scalar"

text \<open>The field \<^verbatim>\<open>fn\<close> of a line, \<open>None\<close> where it is \<^verbatim>\<open>null\<close> or the line has none.\<close>

fun fn :: "payload \<Rightarrow> fn1 option" where
  "fn (ExplicitP f) = f"
| "fn _ = None"

record compiled = expression +
  payload :: payload
  paramNames :: "jsstring list"
  error :: string

text \<open>\<^verbatim>\<open>{ ...params, ans }\<close>, \<^verbatim>\<open>{ ...params, ans, x }\<close>, \<^verbatim>\<open>{ ...params, ans, x, y }\<close>\<close>

definition with_ans :: "bindings \<Rightarrow> real \<Rightarrow> bindings" where
  "with_ans ps a = ps(js ''ans'' \<mapsto> Fin a)"

definition closure1 :: "evaluable \<Rightarrow> bindings \<Rightarrow> string \<Rightarrow> fn1" where
  "closure1 ast ps v = (\<lambda>a x. ast ((with_ans ps a)(js v \<mapsto> x)))"

definition closure_diff :: "evaluable \<Rightarrow> evaluable \<Rightarrow> bindings \<Rightarrow> fn2" where
  "closure_diff L R ps =
     (\<lambda>a x y.
        let env = (with_ans ps a)(js ''x'' \<mapsto> x, js ''y'' \<mapsto> y)
        in case L env of
             Inl msg \<Rightarrow> Inl msg
           | Inr l \<Rightarrow> (case R env of Inl msg \<Rightarrow> Inl msg | Inr r \<Rightarrow> Inr (dsub l r)))"

text \<open>
  \<^verbatim>\<open>try { bound = compileExpr(a).evaluate({ ...params, ans }); } catch { }\<close>: the bound
  keeps its value when compiling or evaluating throws. The text is \<open>None\<close> where the
  destructured array has no such element; \<^verbatim>\<open>parser.parse(undefined)\<close> throws when it reads
  the length of its input.
\<close>

definition range_bound :: "compiler \<Rightarrow> bindings \<Rightarrow> jsstring option \<Rightarrow> number \<Rightarrow> number" where
  "range_bound compileExpr env a cur =
     (case a of
        None \<Rightarrow> cur
      | Some t \<Rightarrow>
          (case compileExpr t of
             Inl _ \<Rightarrow> cur
           | Inr ast \<Rightarrow> (case ast env of Inl _ \<Rightarrow> cur | Inr v \<Rightarrow> v)))"

definition nth_opt :: "'a list \<Rightarrow> nat \<Rightarrow> 'a option" where
  "nth_opt xs i = (if i < length xs then Some (xs ! i) else None)"

section \<open>The classifier\<close>

text \<open>\<^verbatim>\<open>{ ...e, kind, ..., params, paramNames: names, error }\<close>\<close>

definition mk :: "expression \<Rightarrow> bindings \<Rightarrow> jsstring list \<Rightarrow> payload \<times> string \<Rightarrow> compiled" where
  "mk e ps names r =
     expression.extend (e\<lparr>params := ps\<rparr>) (compiled.fields (fst r) names (snd r))"

text \<open>The branch \<^verbatim>\<open>y = ...\<close> on its first group, and the explicit fallback on the whole line.\<close>

definition explicit_line :: "compiler \<Rightarrow> bindings \<Rightarrow> jsstring \<Rightarrow> payload \<times> string" where
  "explicit_line compileExpr ps t =
     (case compileExpr t of
        Inr ast \<Rightarrow> (ExplicitP (Some (closure1 ast ps ''x'')), [])
      | Inl err \<Rightarrow> (ExplicitP None, message_of err))"

text \<open>The polar branch, on the first group of \<^verbatim>\<open>mR\<close> and the line.\<close>

definition polar_line :: "compiler \<Rightarrow> bindings \<Rightarrow> real \<Rightarrow> jsstring \<Rightarrow> jsstring \<Rightarrow> payload \<times> string" where
  "polar_line compileExpr ps ans g s =
     (case compileExpr g of
        Inr ar \<Rightarrow>
          (case match_theta_range s of
             None \<Rightarrow> (PolarP (Some (closure1 ar ps ''theta'')) (Fin 0) (Fin (2 * pi)), [])
           | Some (a, b) \<Rightarrow>
               (PolarP (Some (closure1 ar ps ''theta''))
                  (range_bound compileExpr (with_ans ps ans) (Some a) (Fin 0))
                  (range_bound compileExpr (with_ans ps ans) (Some b) (Fin (2 * pi))), []))
      | Inl err \<Rightarrow> (PolarP None (Fin 0) (Fin (2 * pi)), message_of err))"

text \<open>
  The parametric branch. \<open>parametric_part\<close> is the body of \<^verbatim>\<open>for (const p of parts)\<close> on
  the variables \<^verbatim>\<open>xPart, yPart, tmin, tmax\<close>; \<open>parametric_line\<close> is \<open>None\<close> where the
  branch pushes nothing and the classifier goes on to the next test.
\<close>

type_synonym parts_state = "jsstring option \<times> jsstring option \<times> number \<times> number"

definition parametric_part :: "compiler \<Rightarrow> bindings \<Rightarrow> parts_state \<Rightarrow> jsstring \<Rightarrow> parts_state" where
  "parametric_part compileExpr env st p =
     (case st of (xPart, yPart, tmin, tmax) \<Rightarrow>
        if startsWith p (js ''x='') then (Some (drop 2 p), yPart, tmin, tmax)
        else if startsWith p (js ''y='') then (xPart, Some (drop 2 p), tmin, tmax)
        else if t_range_test p then
          (case (indexOf p (js ''[''), indexOf p (js '']'')) of
             (Some lb, Some rb) \<Rightarrow>
               if rb > lb then
                 (let ab = split_comma_ws [] (take (rb - (lb + 1)) (drop (lb + 1) p))
                  in (xPart, yPart,
                      range_bound compileExpr env (nth_opt ab 0) tmin,
                      range_bound compileExpr env (nth_opt ab 1) tmax))
               else st
           | _ \<Rightarrow> st)
        else st)"

definition parametric_line :: "compiler \<Rightarrow> bindings \<Rightarrow> real \<Rightarrow> jsstring \<Rightarrow> (payload \<times> string) option" where
  "parametric_line compileExpr ps ans s =
     (let parts = map trim (split_on 44 (replace_semicolons s))
      in case foldl (parametric_part compileExpr (with_ans ps ans)) (None, None, Fin (- 10), Fin 10) parts of
           (Some xPart, Some yPart, tmin, tmax) \<Rightarrow>
             if xPart \<noteq> [] \<and> yPart \<noteq> [] then
               (case compileExpr xPart of
                  Inl err \<Rightarrow> Some (ParametricP None None (Fin (- 10)) (Fin 10), message_of err)
                | Inr ax \<Rightarrow>
                    (case compileExpr yPart of
                       Inl err \<Rightarrow> Some (ParametricP None None (Fin (- 10)) (Fin 10), message_of err)
                     | Inr ay \<Rightarrow>
                         Some (ParametricP (Some (closure1 ax ps ''t'')) (Some (closure1 ay ps ''t''))
                                 tmin tmax, [])))
             else None
         | _ \<Rightarrow> None)"

text \<open>The double inequality, on the five groups of \<^verbatim>\<open>mDouble\<close>.\<close>

definition double_line ::
  "compiler \<Rightarrow> bindings \<Rightarrow> jsstring \<times> jsstring \<times> jsstring \<times> jsstring \<times> jsstring \<Rightarrow> payload \<times> string" where
  "double_line compileExpr ps m =
     (case m of (tA, op1, tB, op2, tC) \<Rightarrow>
        (case compileExpr tA of
           Inl err \<Rightarrow> (DoubleIneqP None Le None Le, message_of err)
         | Inr A \<Rightarrow>
             (case compileExpr tB of
                Inl err \<Rightarrow> (DoubleIneqP None Le None Le, message_of err)
              | Inr B \<Rightarrow>
                  (case compileExpr tC of
                     Inl err \<Rightarrow> (DoubleIneqP None Le None Le, message_of err)
                   | Inr C \<Rightarrow>
                       (DoubleIneqP (Some (closure_diff A B ps)) (norm op1)
                          (Some (closure_diff B C ps)) (norm op2), [])))))"

text \<open>
  The single inequality, on the operator \<^verbatim>\<open>cmp.o\<close> and its index \<^verbatim>\<open>cmp.i\<close>. The source
  writes the operator's name out again; it is the expression of \<^verbatim>\<open>norm\<close>.
\<close>

definition inequality_line :: "compiler \<Rightarrow> bindings \<Rightarrow> jsstring \<Rightarrow> jsstring \<times> nat \<Rightarrow> payload \<times> string" where
  "inequality_line compileExpr ps s c =
     (case c of (op, i) \<Rightarrow>
        (case compileExpr (take i s) of
           Inl err \<Rightarrow> (InequalityP None Le, message_of err)
         | Inr L \<Rightarrow>
             (case compileExpr (drop (i + length op) s) of
                Inl err \<Rightarrow> (InequalityP None Le, message_of err)
              | Inr R \<Rightarrow> (InequalityP (Some (closure_diff L R ps)) (norm op), []))))"

definition implicit_line :: "compiler \<Rightarrow> bindings \<Rightarrow> jsstring \<Rightarrow> payload \<times> string" where
  "implicit_line compileExpr ps s =
     (case split_on 61 s of
        [l, r] \<Rightarrow>
          (case compileExpr l of
             Inl err \<Rightarrow> (ImplicitP None, message_of err)
           | Inr L \<Rightarrow>
               (case compileExpr r of
                  Inl err \<Rightarrow> (ImplicitP None, message_of err)
                | Inr R \<Rightarrow> (ImplicitP (Some (closure_diff L R ps)), [])))
      | _ \<Rightarrow> (ImplicitP None, ''Only one '=' allowed''))"

text \<open>
  The calculator line: the value, and the register after the line. Only a finite value is
  stored in the register.
\<close>

definition scalar_line :: "compiler \<Rightarrow> bindings \<Rightarrow> real \<Rightarrow> jsstring \<Rightarrow> (payload \<times> string) \<times> real" where
  "scalar_line compileExpr ps ans s =
     (case compileExpr s of
        Inl err \<Rightarrow> ((ScalarP NaN, message_of err), ans)
      | Inr ast \<Rightarrow>
          (case ast (with_ans ps ans) of
             Inl err \<Rightarrow> ((ScalarP NaN, message_of err), ans)
           | Inr v \<Rightarrow>
               (let finite = (if isFinite v then v else NaN)
                in ((ScalarP finite, []), (case finite of Fin r \<Rightarrow> r | _ \<Rightarrow> ans)))))"

text \<open>
  The body of \<^verbatim>\<open>for (const raw of expressions)\<close>: the line pushed to \<^verbatim>\<open>out\<close> and the
  register \<^verbatim>\<open>ans\<close> after it. Each test is reached only when every test before it has
  pushed nothing.
\<close>

definition classifyLine :: "compiler \<Rightarrow> real \<Rightarrow> expression \<Rightarrow> compiled \<times> real" where
  "classifyLine compileExpr ans e =
     (let names = detectParams (src e);
          baseParams = map_of (map (\<lambda>n. (n, Fin 1)) names);
          ps = baseParams ++ params e;
          s = replace_theta (trim (src e));
          hasX = has_word (js ''x'') s;
          hasY = has_word (js ''y'') s;
          hasT = has_word (js ''t'') s;
          hasTh = has_word (js ''theta'') s;
          hasEq = js_includes s (js ''='')
      in case match_y_eq s of
           Some g \<Rightarrow> (mk e ps names (explicit_line compileExpr ps g), ans)
         | None \<Rightarrow>
        (case (if hasTh then match_r_eq s else None) of
           Some g \<Rightarrow> (mk e ps names (polar_line compileExpr ps ans g s), ans)
         | None \<Rightarrow>
        (case (if js_includes s (js ''x='') \<and> js_includes s (js ''y='') \<and> hasT
               then parametric_line compileExpr ps ans s else None) of
           Some r \<Rightarrow> (mk e ps names r, ans)
         | None \<Rightarrow>
        (case match_double s of
           Some m \<Rightarrow> (mk e ps names (double_line compileExpr ps m), ans)
         | None \<Rightarrow>
        (case find_cmp s of
           Some c \<Rightarrow> (mk e ps names (inequality_line compileExpr ps s c), ans)
         | None \<Rightarrow>
        if hasEq \<and> hasX \<and> hasY then (mk e ps names (implicit_line compileExpr ps s), ans)
        else if \<not> hasX \<and> \<not> hasY \<and> \<not> hasT \<and> \<not> hasTh \<and> \<not> hasEq
        then (mk e ps names (fst (scalar_line compileExpr ps ans s)),
              snd (scalar_line compileExpr ps ans s))
        else (mk e ps names (explicit_line compileExpr ps s), ans))))))"

text \<open>The loop over the lines, from \<^verbatim>\<open>let ans = 0; const out = [];\<close>.\<close>

fun compiled_loop :: "compiler \<Rightarrow> real \<Rightarrow> compiled list \<Rightarrow> expression list \<Rightarrow> compiled list \<times> real" where
  "compiled_loop compileExpr ans out [] = (out, ans)"
| "compiled_loop compileExpr ans out (raw # rest) =
     compiled_loop compileExpr (snd (classifyLine compileExpr ans raw))
       (out @ [fst (classifyLine compileExpr ans raw)]) rest"

definition compiled :: "compiler \<Rightarrow> expression list \<Rightarrow> compiled list" where
  "compiled compileExpr expressions = fst (compiled_loop compileExpr 0 [] expressions)"

text \<open>The value the variable \<^verbatim>\<open>ans\<close> holds once the loop has ended.\<close>

definition final_ans :: "compiler \<Rightarrow> expression list \<Rightarrow> real" where
  "final_ans compileExpr expressions = snd (compiled_loop compileExpr 0 [] expressions)"

subsection \<open>Reading a compiled line\<close>

text \<open>
  A line has no usable function when every function field it carries is \<^verbatim>\<open>null\<close>; a
  calculator line carries no function, and its value is \<^verbatim>\<open>NaN\<close> when it failed. A line has
  all its functions when none of them is \<^verbatim>\<open>null\<close>.
\<close>

fun null_function :: "payload \<Rightarrow> bool" where
  "null_function (ExplicitP f) = (f = None)"
| "null_function (PolarP f a b) = (f = None)"
| "null_function (ParametricP f g a b) = (f = None \<and> g = None)"
| "null_function (DoubleIneqP f p g q) = (f = None \<and> g = None)"
| "null_function (InequalityP f p) = (f = None)"
| "null_function (ImplicitP f) = (f = None)"
| "null_function (ScalarP v) = (v = NaN)"

fun all_functions :: "payload \<Rightarrow> bool" where
  "all_functions (ExplicitP f) = (f \<noteq> None)"
| "all_functions (PolarP f a b) = (f \<noteq> None)"
| "all_functions (ParametricP f g a b) = (f \<noteq> None \<and> g \<noteq> None)"
| "all_functions (DoubleIneqP f p g q) = (f \<noteq> None \<and> g \<noteq> None)"
| "all_functions (InequalityP f p) = (f \<noteq> None)"
| "all_functions (ImplicitP f) = (f \<noteq> None)"
| "all_functions (ScalarP v) = True"

text \<open>The fields \<^verbatim>\<open>op\<close>, \<^verbatim>\<open>value\<close> and \<^verbatim>\<open>tmin, tmax\<close> of a line that has them.\<close>

fun op_of :: "payload \<Rightarrow> cmp option" where
  "op_of (InequalityP f p) = Some p"
| "op_of _ = None"

fun value_of :: "payload \<Rightarrow> number option" where
  "value_of (ScalarP v) = Some v"
| "value_of _ = None"

fun t_range :: "payload \<Rightarrow> (number \<times> number) option" where
  "t_range (ParametricP f g a b) = Some (a, b)"
| "t_range _ = None"

text \<open>The fields \<^verbatim>\<open>thmin, thmax\<close> of a polar line.\<close>

fun th_range :: "payload \<Rightarrow> (number \<times> number) option" where
  "th_range (PolarP f a b) = Some (a, b)"
| "th_range _ = None"

text \<open>The line the classifier reads: trimmed, with the glyph of theta spelled out.\<close>

definition line_source :: "expression \<Rightarrow> jsstring" where
  "line_source e = replace_theta (trim (src e))"

text \<open>
  The branch the structure of a line selects, with the texts the branch hands to the
  compiler for its functions. The two parts of a parametric line are what the loop over the
  parts leaves in \<^verbatim>\<open>xPart\<close> and \<^verbatim>\<open>yPart\<close>, which no compiler influences: they are read here
  with a compiler that always throws.
\<close>

datatype branch =
    BExplicit jsstring
  | BPolar jsstring
  | BParametric jsstring jsstring
  | BDouble jsstring jsstring jsstring jsstring jsstring
  | BInequality jsstring nat
  | BImplicit
  | BScalar
  | BFallback

definition xy_parts :: "jsstring \<Rightarrow> (jsstring \<times> jsstring) option" where
  "xy_parts s =
     (case foldl (parametric_part (\<lambda>t. Inl []) Map.empty) (None, None, Fin (- 10), Fin 10)
             (map trim (split_on 44 (replace_semicolons s))) of
        (Some xPart, Some yPart, tmin, tmax) \<Rightarrow>
          if xPart \<noteq> [] \<and> yPart \<noteq> [] then Some (xPart, yPart) else None
      | _ \<Rightarrow> None)"

definition branch_of :: "jsstring \<Rightarrow> branch" where
  "branch_of s =
     (case match_y_eq s of
        Some g \<Rightarrow> BExplicit g
      | None \<Rightarrow>
     (case (if has_word (js ''theta'') s then match_r_eq s else None) of
        Some g \<Rightarrow> BPolar g
      | None \<Rightarrow>
     (case (if js_includes s (js ''x='') \<and> js_includes s (js ''y='') \<and> has_word (js ''t'') s
            then xy_parts s else None) of
        Some (xPart, yPart) \<Rightarrow> BParametric xPart yPart
      | None \<Rightarrow>
     (case match_double s of
        Some (tA, op1, tB, op2, tC) \<Rightarrow> BDouble tA op1 tB op2 tC
      | None \<Rightarrow>
     (case find_cmp s of
        Some (op, i) \<Rightarrow> BInequality op i
      | None \<Rightarrow>
     if js_includes s (js ''='') \<and> has_word (js ''x'') s \<and> has_word (js ''y'') s then BImplicit
     else if \<not> has_word (js ''x'') s \<and> \<not> has_word (js ''y'') s \<and> \<not> has_word (js ''t'') s
             \<and> \<not> has_word (js ''theta'') s \<and> \<not> js_includes s (js ''='')
     then BScalar
     else BFallback)))))"

fun branch_kind :: "branch \<Rightarrow> plot_kind" where
  "branch_kind (BExplicit g) = Explicit"
| "branch_kind (BPolar g) = Polar"
| "branch_kind (BParametric x y) = Parametric"
| "branch_kind (BDouble a p b q c) = DoubleIneq"
| "branch_kind (BInequality p i) = Inequality"
| "branch_kind BImplicit = Implicit"
| "branch_kind BScalar = Scalar"
| "branch_kind BFallback = Explicit"

definition branch_texts :: "jsstring \<Rightarrow> jsstring list" where
  "branch_texts s =
     (case branch_of s of
        BExplicit g \<Rightarrow> [g]
      | BPolar g \<Rightarrow> [g]
      | BParametric xPart yPart \<Rightarrow> [xPart, yPart]
      | BDouble tA op1 tB op2 tC \<Rightarrow> [tA, tB, tC]
      | BInequality op i \<Rightarrow> [take i s, drop (i + length op) s]
      | BImplicit \<Rightarrow> (case split_on 61 s of [l, r] \<Rightarrow> [l, r] | _ \<Rightarrow> [])
      | BScalar \<Rightarrow> [s]
      | BFallback \<Rightarrow> [s])"

text \<open>
  The register as the lines produced so far leave it: the last finite value of a
  calculator line, or the starting value when there is none.
\<close>

definition register_after :: "real \<Rightarrow> compiled list \<Rightarrow> real" where
  "register_after a0 out =
     foldl (\<lambda>a c. case payload c of ScalarP (Fin v) \<Rightarrow> v | _ \<Rightarrow> a) a0 out"

subsection \<open>An instance of the compiler\<close>

text \<open>
  A small compiler to instantiate statements made for every compiler: sums of products of
  decimal integers, \<^verbatim>\<open>pi\<close> and variables, white space ignored. A variable without a binding
  makes \<^verbatim>\<open>evaluate\<close> throw.
\<close>

fun digits_value :: "nat \<Rightarrow> jsstring \<Rightarrow> nat option" where
  "digits_value acc [] = Some acc"
| "digits_value acc (c # cs) =
     (if 48 \<le> c \<and> c \<le> 57 then digits_value (10 * acc + (c - 48)) cs else None)"

definition lift2 :: "(real \<Rightarrow> real \<Rightarrow> real) \<Rightarrow> evaluable \<Rightarrow> evaluable \<Rightarrow> evaluable" where
  "lift2 h f g =
     (\<lambda>env. case f env of
               Inl msg \<Rightarrow> Inl msg
             | Inr u \<Rightarrow>
                 (case g env of
                    Inl msg \<Rightarrow> Inl msg
                  | Inr v \<Rightarrow> (case (u, v) of (Fin a, Fin b) \<Rightarrow> Inr (Fin (h a b)) | _ \<Rightarrow> Inr NaN)))"

definition atom :: "jsstring \<Rightarrow> evaluable option" where
  "atom t =
     (case t of
        [] \<Rightarrow> None
      | c # cs \<Rightarrow>
          (case digits_value 0 t of
             Some n \<Rightarrow> Some (\<lambda>env. Inr (Fin (real n)))
           | None \<Rightarrow>
               if t = js ''pi'' then Some (\<lambda>env. Inr (Fin pi))
               else if is_ident_start c \<and> list_all is_word cs
               then Some (\<lambda>env. case env t of Some v \<Rightarrow> Inr v | None \<Rightarrow> Inl ''undefined variable'')
               else None))"

definition product_of :: "jsstring \<Rightarrow> evaluable option" where
  "product_of t =
     map_option (foldl (lift2 (*)) (\<lambda>env. Inr (Fin 1))) (those (map atom (split_on 42 t)))"

definition sum_of_products :: compiler where
  "sum_of_products t =
     (case those (map product_of (split_on 43 (filter (\<lambda>c. \<not> is_space c) t))) of
        None \<Rightarrow> Inl ''parse error''
      | Some ps \<Rightarrow> Inr (foldl (lift2 (+)) (\<lambda>env. Inr (Fin 0)) ps))"

text \<open>A line as the user adds it: visible, with no parameter set by hand.\<close>

definition line :: "string \<Rightarrow> expression" where
  "line s = \<lparr>eid = 1, src = js s, visible = True, params = Map.empty\<rparr>"

subsection \<open>The classifier by branch\<close>

text \<open>\<^verbatim>\<open>{ ...baseParams, ...(e.params || {}) }\<close>: every detected name bound to 1, then the values set by hand.\<close>

definition line_params :: "expression \<Rightarrow> bindings" where
  "line_params e = map_of (map (\<lambda>n. (n, Fin 1)) (detectParams (src e))) ++ params e"

text \<open>
  The loop over the parts of a parametric line, read on \<^verbatim>\<open>xPart\<close> and \<^verbatim>\<open>yPart\<close> alone, the pair of
  bounds it leaves, and what the branch pushes for two non-empty parts and a pair of bounds.
\<close>

definition xy_step :: "jsstring option \<times> jsstring option \<Rightarrow> jsstring \<Rightarrow> jsstring option \<times> jsstring option" where
  "xy_step st p =
     (if startsWith p (js ''x='') then (Some (drop 2 p), snd st)
      else if startsWith p (js ''y='') then (fst st, Some (drop 2 p))
      else st)"

definition xy :: "parts_state \<Rightarrow> jsstring option \<times> jsstring option" where
  "xy st = (fst st, fst (snd st))"

definition parametric_out :: "compiler \<Rightarrow> bindings \<Rightarrow> jsstring \<Rightarrow> jsstring \<Rightarrow> number \<times> number \<Rightarrow> payload \<times> string" where
  "parametric_out c ps xPart yPart tb =
     (case c xPart of
        Inl err \<Rightarrow> (ParametricP None None (Fin (- 10)) (Fin 10), message_of err)
      | Inr ax \<Rightarrow>
          (case c yPart of
             Inl err \<Rightarrow> (ParametricP None None (Fin (- 10)) (Fin 10), message_of err)
           | Inr ay \<Rightarrow>
               (ParametricP (Some (closure1 ax ps ''t'')) (Some (closure1 ay ps ''t'')) (fst tb) (snd tb), [])))"

definition t_bounds :: "compiler \<Rightarrow> bindings \<Rightarrow> jsstring \<Rightarrow> number \<times> number" where
  "t_bounds c env s =
     snd (snd (foldl (parametric_part c env) (None, None, Fin (- 10), Fin 10)
                 (map trim (split_on 44 (replace_semicolons s)))))"

text \<open>
  A bound of a range fails when its text does not compile or its expression throws on
  the bindings \<^verbatim>\<open>{ ...params, ans }\<close>.
\<close>

definition bound_fails :: "compiler \<Rightarrow> bindings \<Rightarrow> jsstring \<Rightarrow> bool" where
  "bound_fails c env t = (case c t of Inl _ \<Rightarrow> True | Inr ast \<Rightarrow> isl (ast env))"

text \<open>
  The texts a parametric line hands to the compiler as bounds: for each part that passes
  the test of a range and has its brackets in order, the elements \<^verbatim>\<open>[a, b]\<close> that the split
  of the text between the brackets has.
\<close>

definition part_bounds :: "jsstring \<Rightarrow> jsstring list" where
  "part_bounds p =
     (if startsWith p (js ''x='') then []
      else if startsWith p (js ''y='') then []
      else if t_range_test p then
        (case (indexOf p (js ''[''), indexOf p (js '']'')) of
           (Some lb, Some rb) \<Rightarrow>
             if rb > lb then
               (let ab = split_comma_ws [] (take (rb - (lb + 1)) (drop (lb + 1) p))
                in List.map_filter (nth_opt ab) [0, 1])
             else []
         | _ \<Rightarrow> [])
      else [])"

definition bound_texts :: "jsstring \<Rightarrow> jsstring list" where
  "bound_texts s = concat (map part_bounds (map trim (split_on 44 (replace_semicolons s))))"

text \<open>The classifier read by branch: the fields it adds to the line, and the register after it.\<close>

definition core :: "compiler \<Rightarrow> real \<Rightarrow> bindings \<Rightarrow> jsstring \<Rightarrow> (payload \<times> string) \<times> real" where
  "core c a ps s =
     (case branch_of s of
        BExplicit g \<Rightarrow> (explicit_line c ps g, a)
      | BPolar g \<Rightarrow> (polar_line c ps a g s, a)
      | BParametric xPart yPart \<Rightarrow> (parametric_out c ps xPart yPart (t_bounds c (with_ans ps a) s), a)
      | BDouble tA op1 tB op2 tC \<Rightarrow> (double_line c ps (tA, op1, tB, op2, tC), a)
      | BInequality op i \<Rightarrow> (inequality_line c ps s (op, i), a)
      | BImplicit \<Rightarrow> (implicit_line c ps s, a)
      | BScalar \<Rightarrow> scalar_line c ps a s
      | BFallback \<Rightarrow> (explicit_line c ps s, a))"

text \<open>
  What a branch owes for the texts it compiles: its kind, no function and the message of a
  failed text when one fails, no function with an error, every function without.
\<close>

definition branch_ok :: "compiler \<Rightarrow> jsstring list \<Rightarrow> plot_kind \<Rightarrow> payload \<times> string \<Rightarrow> bool" where
  "branch_ok c ts k r \<longleftrightarrow>
     kind (fst r) = k
     \<and> ((\<exists>t \<in> set ts. isl (c t)) \<longrightarrow>
          null_function (fst r) \<and> (\<exists>t \<in> set ts. \<exists>msg. c t = Inl msg \<and> snd r = message_of msg))
     \<and> (snd r \<noteq> [] \<longrightarrow> null_function (fst r))
     \<and> (snd r = [] \<longrightarrow> all_functions (fst r))"

text \<open>The lines the loop produces from a value of the register.\<close>

fun lines_from :: "compiler \<Rightarrow> real \<Rightarrow> expression list \<Rightarrow> compiled list" where
  "lines_from c a [] = []"
| "lines_from c a (e # es) = fst (classifyLine c a e) # lines_from c (snd (classifyLine c a e)) es"

section \<open>Fit to data\<close>

text \<open>
  \<^verbatim>\<open>for (const e of funcs) { const y = e.fn(x); ... }\<close> on the pair \<^verbatim>\<open>(yMin, yMax)\<close>; the
  first argument is the value of the register read by the closures. \<open>Inl\<close> is an exception
  thrown by a curve, which nothing in \<^verbatim>\<open>fitToData\<close> catches.
\<close>

fun sample_funcs :: "real \<Rightarrow> number \<Rightarrow> compiled list \<Rightarrow> number \<times> number \<Rightarrow> string + number \<times> number" where
  "sample_funcs a x [] acc = Inr acc"
| "sample_funcs a x (e # es) acc =
     (case fn (payload e) of
        None \<Rightarrow> Inl ''e.fn is not a function''
      | Some f \<Rightarrow>
          (case f a x of
             Inl msg \<Rightarrow> Inl msg
           | Inr v \<Rightarrow>
               if \<not> isFinite v then sample_funcs a x es acc
               else sample_funcs a x es (Math_min (fst acc) v, Math_max (snd acc) v)))"

text \<open>\<^verbatim>\<open>for (let i = 0; i <= samples; i++)\<close>, on the list of the indices still to visit.\<close>

fun sample_loop ::
  "real \<Rightarrow> (nat \<Rightarrow> number) \<Rightarrow> compiled list \<Rightarrow> nat list \<Rightarrow> number \<times> number \<Rightarrow> string + number \<times> number" where
  "sample_loop a xs funcs [] acc = Inr acc"
| "sample_loop a xs funcs (i # rest) acc =
     (case sample_funcs a (xs i) funcs acc of
        Inl msg \<Rightarrow> Inl msg
      | Inr acc' \<Rightarrow> sample_loop a xs funcs rest acc')"

text \<open>
  \<^verbatim>\<open>fitToData\<close>: the exception that leaves it, or the view after it. A return before
  \<^verbatim>\<open>setView\<close> leaves the view as it is. \<^verbatim>\<open>(yMax - yMin) * 0.1 || 1\<close> is 1 where the product
  is zero or \<^verbatim>\<open>NaN\<close>.
\<close>

definition fitToData :: "real \<Rightarrow> compiled list \<Rightarrow> number view \<Rightarrow> string + number view" where
  "fitToData ans lines v =
     (let funcs = filter (\<lambda>e. visible e \<and> kind (payload e) = Explicit \<and> fn (payload e) \<noteq> None
                              \<and> error e = []) lines
      in if funcs = [] then Inr v
         else
           (let samples = 800;
                step = ddiv (dsub (xMax v) (xMin v)) (Fin (real samples))
            in case sample_loop ans (\<lambda>i. dadd (xMin v) (dmul (Fin (real i)) step)) funcs
                      [0..<Suc samples] (PosInf, NegInf) of
                 Inl msg \<Rightarrow> Inl msg
               | Inr (lo, hi) \<Rightarrow>
                   if \<not> isFinite lo \<or> \<not> isFinite hi then Inr v
                   else
                     (let d = dmul (dsub hi lo) (Fin literal_0_1);
                          pad = (if d = Fin 0 \<or> d = NaN then Fin 1 else d)
                      in Inr (v\<lparr>yMin := dsub lo pad, yMax := dadd hi pad\<rparr>))))"

section \<open>Analysis\<close>

text \<open>
  \<^verbatim>\<open>bisectRoot(f, a, b, ya, yb, iters = 32)\<close>. \<open>bisect_loop\<close> is the \<^verbatim>\<open>for\<close> loop on
  \<^verbatim>\<open>lo, hi, flo, fhi\<close> with the number of iterations left; \<open>None\<close> is \<^verbatim>\<open>null\<close>. The
  function \<^verbatim>\<open>f\<close> gives a Number at every Number: one that throws takes the exception out of
  \<^verbatim>\<open>bisectRoot\<close>, which has no handler.
\<close>

fun bisect_loop ::
  "(number \<Rightarrow> number) \<Rightarrow> nat \<Rightarrow> number \<Rightarrow> number \<Rightarrow> number \<Rightarrow> number \<Rightarrow> number option" where
  "bisect_loop f 0 lo hi flo fhi = Some (dmul (Fin (1 / 2)) (dadd lo hi))"
| "bisect_loop f (Suc n) lo hi flo fhi =
     (if \<not> isFinite (f (dmul (Fin (1 / 2)) (dadd lo hi))) then None
      else if flo = Fin 0 then Some lo
      else if fhi = Fin 0 then Some hi
      else if f (dmul (Fin (1 / 2)) (dadd lo hi)) = Fin 0 then Some (dmul (Fin (1 / 2)) (dadd lo hi))
      else if dlt (dmul flo (f (dmul (Fin (1 / 2)) (dadd lo hi)))) (Fin 0)
      then bisect_loop f n lo (dmul (Fin (1 / 2)) (dadd lo hi)) flo (f (dmul (Fin (1 / 2)) (dadd lo hi)))
      else bisect_loop f n (dmul (Fin (1 / 2)) (dadd lo hi)) hi (f (dmul (Fin (1 / 2)) (dadd lo hi))) fhi)"

definition bisectRoot ::
  "(number \<Rightarrow> number) \<Rightarrow> number \<Rightarrow> number \<Rightarrow> number \<Rightarrow> number \<Rightarrow> nat \<Rightarrow> number option" where
  "bisectRoot f a b ya yb iters =
     (let ya = (if \<not> isFinite ya then f a else ya);
          yb = (if \<not> isFinite yb then f b else yb)
      in if \<not> isFinite ya \<or> \<not> isFinite yb \<or> dlt (Fin 0) (dmul ya yb) then None
         else bisect_loop f iters a b ya yb)"

text \<open>
  The points of the analysis. \<^verbatim>\<open>mapKey\<close> joins the two rounded coordinates into a string;
  the pair of integers stands for it. \<^verbatim>\<open>Math.round\<close> rounds a half up.
\<close>

datatype ptype = XInt | YInt | MaxPt | MinPt | IntersectPt

record point =
  ptype :: ptype
  px :: real
  py :: real
  exprId :: nat

type_synonym key = "int \<times> int"

definition mapKey :: "real \<Rightarrow> real \<Rightarrow> key" where
  "mapKey x y = (\<lfloor>x * 10 ^ 6 + 1 / 2\<rfloor>, \<lfloor>y * 10 ^ 6 + 1 / 2\<rfloor>)"

definition key_of :: "point \<Rightarrow> key" where
  "key_of p = mapKey (px p) (py p)"

record result =
  xIntercepts :: "point list"
  yIntercepts :: "point list"
  extrema :: "point list"
  intersections :: "point list"
  allPoints :: "point list"

definition empty_result :: result where
  "empty_result = \<lparr>xIntercepts = [], yIntercepts = [], extrema = [], intersections = [], allPoints = []\<rparr>"

text \<open>
  \<^verbatim>\<open>if (!seen.has(key)) { seen.add(key); result.<list>.push(point); }\<close>, which the source
  writes at each of its five places of discovery; the list is the one of the point's type.
\<close>

definition push :: "point \<Rightarrow> key set \<times> result \<Rightarrow> key set \<times> result" where
  "push p st =
     (if key_of p \<in> fst st then st
      else (insert (key_of p) (fst st),
            (case ptype p of
               XInt \<Rightarrow> (snd st)\<lparr>xIntercepts := xIntercepts (snd st) @ [p]\<rparr>
             | YInt \<Rightarrow> (snd st)\<lparr>yIntercepts := yIntercepts (snd st) @ [p]\<rparr>
             | MaxPt \<Rightarrow> (snd st)\<lparr>extrema := extrema (snd st) @ [p]\<rparr>
             | MinPt \<Rightarrow> (snd st)\<lparr>extrema := extrema (snd st) @ [p]\<rparr>
             | IntersectPt \<Rightarrow> (snd st)\<lparr>intersections := intersections (snd st) @ [p]\<rparr>)))"

text \<open>
  What the numeric searches find for one curve, in the order its scans reach them: the roots
  \<^verbatim>\<open>bisectRoot\<close> returns over the sample pairs, the finite value at 0 when 0 is in the view and
  the domain, and the refined peaks and valleys with their kind.
\<close>

record found =
  fid :: nat
  roots :: "real list"
  yintercept :: "real option"
  peaks :: "(bool \<times> real \<times> real) list"

definition curve_candidates :: "found \<Rightarrow> point list" where
  "curve_candidates c =
     map (\<lambda>xr. \<lparr>ptype = XInt, px = xr, py = 0, exprId = fid c\<rparr>) (roots c)
     @ (case yintercept c of None \<Rightarrow> [] | Some y \<Rightarrow> [\<lparr>ptype = YInt, px = 0, py = y, exprId = fid c\<rparr>])
     @ map (\<lambda>(is_max, x, y). \<lparr>ptype = (if is_max then MaxPt else MinPt), px = x, py = y, exprId = fid c\<rparr>)
         (peaks c)"

text \<open>
  The candidates in the order the analysis meets them: curve by curve its roots, its
  y-intercept and its extrema, and after all curves the crossings of the pairs of curves.
\<close>

definition candidates :: "found list \<Rightarrow> (nat \<times> real \<times> real) list \<Rightarrow> point list" where
  "candidates curves crossings =
     concat (map curve_candidates curves)
     @ map (\<lambda>(i, x, y). \<lparr>ptype = IntersectPt, px = x, py = y, exprId = i\<rparr>) crossings"

definition analysis :: "found list \<Rightarrow> (nat \<times> real \<times> real) list \<Rightarrow> result" where
  "analysis curves crossings =
     (if curves = [] then empty_result
      else
        (let r = snd (foldl (\<lambda>st p. push p st) ({}, empty_result) (candidates curves crossings))
         in r\<lparr>allPoints := xIntercepts r @ yIntercepts r @ extrema r @ intersections r\<rparr>))"

text \<open>
  The points that are the first of their key in a list, given the keys already seen: what
  "first writer wins" keeps.
\<close>

fun first_writers :: "key set \<Rightarrow> point list \<Rightarrow> point list" where
  "first_writers seen [] = []"
| "first_writers seen (p # ps) =
     (if key_of p \<in> seen then first_writers seen ps
      else p # first_writers (insert (key_of p) seen) ps)"

text \<open>The four lists of a result, as tests on the type of a point.\<close>

definition in_x :: "point \<Rightarrow> bool" where "in_x p \<longleftrightarrow> ptype p = XInt"
definition in_y :: "point \<Rightarrow> bool" where "in_y p \<longleftrightarrow> ptype p = YInt"
definition in_e :: "point \<Rightarrow> bool" where "in_e p \<longleftrightarrow> ptype p = MaxPt \<or> ptype p = MinPt"
definition in_i :: "point \<Rightarrow> bool" where "in_i p \<longleftrightarrow> ptype p = IntersectPt"

definition append_kept :: "result \<Rightarrow> point list \<Rightarrow> result" where
  "append_kept r K =
     r\<lparr>xIntercepts := xIntercepts r @ filter in_x K,
       yIntercepts := yIntercepts r @ filter in_y K,
       extrema := extrema r @ filter in_e K,
       intersections := intersections r @ filter in_i K\<rparr>"

text \<open>
  What the searches find for \<open>x\<^sup>2\<close>: the root and the y-intercept at the origin, and the
  valley a ten-millionth beside it. Before it, a curve that touches the axis at 1 without a
  sample on it (a valley, no root), and a line that crosses the axis there.
\<close>

definition valley_at_one :: found where
  "valley_at_one = \<lparr>fid = 1, roots = [], yintercept = Some 1, peaks = [(False, 1, 0)]\<rparr>"

definition line_through_one :: found where
  "line_through_one = \<lparr>fid = 2, roots = [1], yintercept = Some (- 1), peaks = []\<rparr>"

definition parabola :: found where
  "parabola = \<lparr>fid = 1, roots = [0], yintercept = Some 0, peaks = [(False, 1 / 10 ^ 7, 0)]\<rparr>"

section \<open>Properties of the transform\<close>

text \<open>
  C3: for every viewport with xMin < xMax and yMin < yMax and every positive pixel width and
  height, the inverse maps undo the forward maps: pxToX (xToPx x) = x and pxToY (yToPx y) = y
  for every x and y, exactly, in exact arithmetic.
\<close>

theorem transform_round_trip:
  assumes "xMin v < xMax v" and "yMin v < yMax v" and "0 < width" and "0 < height"
  shows "pxToX (makeTransform v width height) (xToPx (makeTransform v width height) x) = x
       \<and> pxToY (makeTransform v width height) (yToPx (makeTransform v width height) y) = y"
  using assms by (simp add: makeTransform_def Let_def)

theorem transform_round_trip_witness:
  "xMin \<lparr>xMin = -10 :: real, xMax = 10, yMin = -6, yMax = 6\<rparr> < xMax \<lparr>xMin = -10 :: real, xMax = 10, yMin = -6, yMax = 6\<rparr>
   \<and> pxToX (makeTransform \<lparr>xMin = -10, xMax = 10, yMin = -6, yMax = 6\<rparr> 800 480)
        (xToPx (makeTransform \<lparr>xMin = -10, xMax = 10, yMin = -6, yMax = 6\<rparr> 800 480) 3) = 3
   \<and> pxToY (makeTransform \<lparr>xMin = -10, xMax = 10, yMin = -6, yMax = 6\<rparr> 800 480)
        (yToPx (makeTransform \<lparr>xMin = -10, xMax = 10, yMin = -6, yMax = 6\<rparr> 800 480) (-2)) = -2"
  using transform_round_trip [of "\<lparr>xMin = -10, xMax = 10, yMin = -6, yMax = 6\<rparr>" 800 480 3 "-2"]
  by simp

section \<open>Properties of double precision\<close>

lemma rhe_of_int [simp]: "rhe (of_int n) = n"
  by (simp add: rhe_def)

lemma rhe_ge: "of_int n \<le> q \<Longrightarrow> n \<le> rhe q"
proof -
  assume "of_int n \<le> q"
  hence "n \<le> \<lfloor>q\<rfloor>" by (simp add: le_floor_iff)
  thus ?thesis unfolding rhe_def by auto
qed

lemma rhe_le: "q \<le> of_int n \<Longrightarrow> rhe q \<le> n"
proof -
  assume h: "q \<le> of_int n"
  have f: "\<lfloor>q\<rfloor> \<le> n" using h by linarith
  show ?thesis
  proof (cases "q = of_int n")
    case True thus ?thesis by simp
  next
    case False
    hence "q < of_int n" using h by simp
    hence "\<lfloor>q\<rfloor> < n" by (simp add: floor_less_iff)
    thus ?thesis unfolding rhe_def by auto
  qed
qed

lemma rhe_small: "\<bar>q\<bar> < 1 / 2 \<Longrightarrow> rhe q = 0"
proof -
  assume h: "\<bar>q\<bar> < 1 / 2"
  show ?thesis
  proof (cases "0 \<le> q")
    case True
    hence "\<lfloor>q\<rfloor> = 0" using h by (simp add: floor_eq_iff)
    thus ?thesis using h True by (simp add: rhe_def)
  next
    case False
    hence "\<lfloor>q\<rfloor> = -1" using h by (simp add: floor_eq_iff)
    thus ?thesis using h False by (simp add: rhe_def)
  qed
qed

lemma rhe_nonneg: "0 \<le> q \<Longrightarrow> 0 \<le> rhe q"
  using rhe_ge [of 0 q] by simp

lemma rhe_nonpos: "q \<le> 0 \<Longrightarrow> rhe q \<le> 0"
  using rhe_le [of q 0] by simp

lemma floor_log2_less: "0 < x \<Longrightarrow> x < 2 powi k \<Longrightarrow> \<lfloor>log 2 x\<rfloor> < k"
proof -
  assume x: "0 < x" and h: "x < 2 powi k"
  have "x < 2 powr (real_of_int k)" using h by (simp add: powr_real_of_int')
  hence "log 2 x < real_of_int k" using x by (simp add: log_less_iff)
  thus ?thesis by (simp add: floor_less_iff)
qed

lemma floor_log2_ge: "2 powi k \<le> x \<Longrightarrow> k \<le> \<lfloor>log 2 x\<rfloor>"
proof -
  assume h: "2 powi k \<le> x"
  have "(0::real) < 2 powi k" by (simp add: zero_less_power_int)
  hence x: "0 < x" using h by linarith
  have "2 powr (real_of_int k) \<le> x" using h by (simp add: powr_real_of_int')
  hence "real_of_int k \<le> log 2 x" using x by (simp add: le_log_iff)
  thus ?thesis by (simp add: le_floor_iff)
qed

lemma ulp_exp_binade:
  assumes "2 powi k \<le> \<bar>x\<bar>" and "\<bar>x\<bar> < 2 powi (k + 1)"
  shows "ulp_exp x = max k (- 1022) - 52"
proof -
  have "(0::real) < 2 powi k" by (simp add: zero_less_power_int)
  hence x: "0 < \<bar>x\<bar>" using assms(1) by linarith
  have "k \<le> \<lfloor>log 2 \<bar>x\<bar>\<rfloor>" using assms(1) by (rule floor_log2_ge)
  moreover have "\<lfloor>log 2 \<bar>x\<bar>\<rfloor> < k + 1" using x assms(2) by (rule floor_log2_less)
  ultimately have "\<lfloor>log 2 \<bar>x\<bar>\<rfloor> = k" by linarith
  thus ?thesis by (simp add: ulp_exp_def)
qed

lemma rnd_0 [simp]: "rnd 0 = Fin 0"
  by (simp add: rnd_def)

lemma rnd_grid:
  assumes "x = of_int m * 2 powi ulp_exp x" and "x \<noteq> 0"
  shows "rnd x = (if 2 ^ 1024 \<le> \<bar>x\<bar> then (if 0 < x then PosInf else NegInf) else Fin x)"
proof -
  have p: "(2::real) powi ulp_exp x \<noteq> 0" by simp
  have "x / 2 powi ulp_exp x = of_int m"
    using assms(1) p by (metis nonzero_mult_div_cancel_right)
  hence "nearest x = x"
    using assms(1) by (simp add: nearest_def)
  thus ?thesis using assms(2) by (simp add: rnd_def)
qed

lemma rnd_exact:
  assumes n: "\<bar>n\<bar> < 2 ^ 53" and e: "- 1074 \<le> e"
  shows "rnd (of_int n * 2 powi e) =
           (if 2 ^ 1024 \<le> \<bar>real_of_int n * 2 powi e\<bar> then (if 0 < n then PosInf else NegInf)
            else Fin (of_int n * 2 powi e))"
proof (cases "n = 0")
  case True
  thus ?thesis by simp
next
  case False
  define x where "x = real_of_int n * 2 powi e"
  define u where "u = ulp_exp x"
  have pe: "(0::real) < 2 powi e" by (simp add: zero_less_power_int)
  have x0: "x \<noteq> 0" using False pe by (simp add: x_def)
  have ax: "\<bar>x\<bar> = \<bar>real_of_int n\<bar> * 2 powi e" using pe by (simp add: x_def abs_mult)
  have "\<bar>real_of_int n\<bar> < 2 ^ 53" using n by (metis of_int_abs of_int_less_numeral_power_cancel_iff)
  hence "\<bar>x\<bar> < 2 ^ 53 * 2 powi e" unfolding ax using pe by simp
  also have "\<dots> = 2 powi (53 + e)" by (simp add: power_int_add)
  finally have "\<lfloor>log 2 \<bar>x\<bar>\<rfloor> < 53 + e" using x0 by (intro floor_log2_less) simp_all
  hence ue: "u \<le> e" using e by (simp add: u_def ulp_exp_def)
  have "(2::real) powi e = 2 powi (e - u) * 2 powi u"
    by (simp flip: power_int_add)
  also have "(2::real) powi (e - u) = 2 ^ nat (e - u)"
    using ue by (simp add: power_int_def)
  finally have "x = real_of_int (n * 2 ^ nat (e - u)) * 2 powi ulp_exp x"
    by (simp add: x_def u_def)
  from rnd_grid [OF this x0] have "rnd x = (if 2 ^ 1024 \<le> \<bar>x\<bar> then (if 0 < x then PosInf else NegInf) else Fin x)" .
  moreover have "\<not> (2::real) powi e < 0" using pe by linarith
  hence "0 < x \<longleftrightarrow> 0 < n" by (simp add: x_def zero_less_mult_iff)
  ultimately show ?thesis by (simp add: x_def)
qed

lemma rnd_underflow:
  assumes "\<bar>x\<bar> < 2 powi (- 1075)"
  shows "rnd x = Fin 0"
proof (cases "x = 0")
  case True
  thus ?thesis by simp
next
  case False
  hence x: "0 < \<bar>x\<bar>" by simp
  have "\<lfloor>log 2 \<bar>x\<bar>\<rfloor> < - 1075" using x assms by (rule floor_log2_less)
  hence u: "ulp_exp x = - 1074" by (simp add: ulp_exp_def)
  have "(2::real) powi (- 1075) = 1 / 2 * 2 powi (- 1074)"
    using power_int_add_1' [of "2::real" "- 1075"] by simp
  hence "\<bar>x\<bar> < 1 / 2 * 2 powi (- 1074)" using assms by simp
  hence "\<bar>x\<bar> / 2 powi (- 1074) < 1 / 2"
    by (simp add: pos_divide_less_eq zero_less_power_int)
  hence "\<bar>x / 2 powi (- 1074)\<bar> < 1 / 2" by (simp add: abs_divide)
  hence "rhe (x / 2 powi (- 1074)) = 0" by (rule rhe_small)
  thus ?thesis using False unfolding rnd_def nearest_def u by (simp del: power_int_minus)
qed

lemma rnd_dyadic:
  assumes "\<bar>n\<bar> < 2 ^ 53" and "k \<le> 1074"
  shows "rnd (real_of_int n / 2 ^ k) = Fin (real_of_int n / 2 ^ k)"
proof -
  have e: "real_of_int n / 2 ^ k = real_of_int n * 2 powi (- int k)"
    by (simp add: power_int_minus field_simps)
  have "\<bar>real_of_int n\<bar> < 2 ^ 53"
    using assms(1) by (metis of_int_abs of_int_less_numeral_power_cancel_iff)
  moreover have "\<bar>real_of_int n / 2 ^ k\<bar> \<le> \<bar>real_of_int n\<bar>"
  proof -
    have "(1::real) \<le> 2 ^ k" by simp
    hence "\<bar>real_of_int n\<bar> * 1 \<le> \<bar>real_of_int n\<bar> * 2 ^ k"
      by (intro mult_left_mono) simp_all
    thus ?thesis by (simp add: abs_divide divide_le_eq)
  qed
  moreover have "(2::real) ^ 53 \<le> 2 ^ 1024" by simp
  ultimately have "\<not> 2 ^ 1024 \<le> \<bar>real_of_int n / 2 ^ k\<bar>" by linarith
  thus ?thesis
    using rnd_exact [of n "- int k"] assms unfolding e [symmetric] by simp
qed

lemma rnd_int:
  assumes "\<bar>n\<bar> < 2 ^ 53"
  shows "rnd (real_of_int n) = Fin (real_of_int n)"
  using rnd_dyadic [of n 0] assms by simp

lemma rhe_mono: "q \<le> q' \<Longrightarrow> rhe q \<le> rhe q'"
proof -
  assume h: "q \<le> q'"
  hence f: "\<lfloor>q\<rfloor> \<le> \<lfloor>q'\<rfloor>" by (rule floor_mono)
  show ?thesis
  proof (cases "\<lfloor>q\<rfloor> = \<lfloor>q'\<rfloor>")
    case True
    with h show ?thesis unfolding rhe_def by auto
  next
    case False
    with f have "\<lfloor>q\<rfloor> + 1 \<le> \<lfloor>q'\<rfloor>" by simp
    moreover have "rhe q \<le> \<lfloor>q\<rfloor> + 1" unfolding rhe_def by auto
    moreover have "\<lfloor>q'\<rfloor> \<le> rhe q'" unfolding rhe_def by auto
    ultimately show ?thesis by linarith
  qed
qed

lemma rhe_near:
  assumes "real_of_int n - 1 / 2 < q" and "q < real_of_int n + 1 / 2"
  shows "rhe q = n"
proof (cases "real_of_int n \<le> q")
  case True
  hence "\<lfloor>q\<rfloor> = n" using assms(2) by (simp add: floor_eq_iff)
  thus ?thesis using assms(2) by (simp add: rhe_def)
next
  case False
  hence "\<lfloor>q\<rfloor> = n - 1" using assms(1) by (simp add: floor_eq_iff)
  thus ?thesis using assms(1) False by (simp add: rhe_def)
qed

lemma floor_log2_mono: "0 < x \<Longrightarrow> x \<le> y \<Longrightarrow> \<lfloor>log 2 x\<rfloor> \<le> \<lfloor>log 2 y\<rfloor>"
  by (intro floor_mono log_mono) simp_all

lemma floor_log2_bounds:
  assumes "0 < x"
  shows "2 powi \<lfloor>log 2 x\<rfloor> \<le> x" and "x < 2 powi (\<lfloor>log 2 x\<rfloor> + 1)"
proof -
  have "\<lfloor>log 2 x\<rfloor> = \<lfloor>log 2 x\<rfloor>" ..
  with assms have "2 powr (of_int \<lfloor>log 2 x\<rfloor>) \<le> x \<and> x < 2 powr (of_int (\<lfloor>log 2 x\<rfloor> + 1))"
    using floor_log_eq_powr_iff [of x 2 "\<lfloor>log 2 x\<rfloor>"] by simp
  then show "2 powi \<lfloor>log 2 x\<rfloor> \<le> x" and "x < 2 powi (\<lfloor>log 2 x\<rfloor> + 1)"
    using powr_real_of_int' [of "2::real" "\<lfloor>log 2 x\<rfloor>"] powr_real_of_int' [of "2::real" "\<lfloor>log 2 x\<rfloor> + 1"]
    by simp_all
qed

lemma nearest_nonneg: "0 \<le> x \<Longrightarrow> 0 \<le> nearest x"
  unfolding nearest_def by (intro mult_nonneg_nonneg) (simp_all add: rhe_nonneg)

lemma nearest_0 [simp]: "nearest 0 = 0"
  using rhe_of_int [of 0] by (simp add: nearest_def)

lemma nearest_mono_pos:
  assumes x: "0 < x" and xy: "x \<le> y"
  shows "nearest x \<le> nearest y"
proof -
  define L where "L = \<lfloor>log 2 y\<rfloor>"
  have y: "0 < y" using x xy by linarith
  have ax: "\<bar>x\<bar> = x" and ay: "\<bar>y\<bar> = y" using x y by simp_all
  have fl: "\<lfloor>log 2 x\<rfloor> \<le> L" unfolding L_def using x xy by (rule floor_log2_mono)
  hence u: "ulp_exp x \<le> ulp_exp y" by (simp add: ulp_exp_def ax ay L_def)
  show ?thesis
  proof (cases "ulp_exp x = ulp_exp y")
    case True
    have "x / 2 powi ulp_exp y \<le> y / 2 powi ulp_exp y"
      using xy by (simp add: divide_right_mono)
    hence "rhe (x / 2 powi ulp_exp y) \<le> rhe (y / 2 powi ulp_exp y)" by (rule rhe_mono)
    hence "real_of_int (rhe (x / 2 powi ulp_exp y)) * 2 powi ulp_exp y
         \<le> real_of_int (rhe (y / 2 powi ulp_exp y)) * 2 powi ulp_exp y"
      by (intro mult_right_mono) simp_all
    thus ?thesis by (simp add: nearest_def True)
  next
    case False
    with u have lt: "ulp_exp x < ulp_exp y" by simp
    have "- 1074 \<le> ulp_exp x" by (simp add: ulp_exp_def)
    with lt have uy: "ulp_exp y = L - 52" and L: "- 1022 < L"
      by (simp_all add: ulp_exp_def ay L_def max_def split: if_splits)
    have "\<lfloor>log 2 x\<rfloor> \<noteq> L"
      using lt by (auto simp: ulp_exp_def ax ay L_def)
    with fl have "\<lfloor>log 2 x\<rfloor> + 1 \<le> L" by simp
    hence "(2::real) powi (\<lfloor>log 2 x\<rfloor> + 1) \<le> 2 powi L"
      by (intro power_int_increasing) simp_all
    with floor_log2_bounds(2) [OF x] have xL: "x \<le> 2 powi L" by linarith
    have Ly: "2 powi L \<le> y" unfolding L_def using y by (rule floor_log2_bounds(1))
    have ux: "ulp_exp x \<le> L" using lt uy by simp
    have "(2::real) powi L = 2 powi (L - ulp_exp x) * 2 powi ulp_exp x"
      by (simp flip: power_int_add)
    also have "(2::real) powi (L - ulp_exp x) = real_of_int (2 ^ nat (L - ulp_exp x))"
      using ux by (simp add: power_int_def)
    finally have e1: "(2::real) powi L = real_of_int (2 ^ nat (L - ulp_exp x)) * 2 powi ulp_exp x" .
    have "x / 2 powi ulp_exp x \<le> real_of_int (2 ^ nat (L - ulp_exp x))"
      using xL unfolding e1 by (simp add: pos_divide_le_eq zero_less_power_int)
    hence "rhe (x / 2 powi ulp_exp x) \<le> 2 ^ nat (L - ulp_exp x)" by (rule rhe_le)
    hence "real_of_int (rhe (x / 2 powi ulp_exp x)) * 2 powi ulp_exp x
         \<le> real_of_int (2 ^ nat (L - ulp_exp x)) * 2 powi ulp_exp x"
      by (intro mult_right_mono) simp_all
    hence n1: "nearest x \<le> 2 powi L" unfolding e1 nearest_def .
    have "(2::real) powi L = 2 powi (52 + (L - 52))" by simp
    also have "\<dots> = 2 powi 52 * 2 powi (L - 52)"
      by (rule power_int_add) simp
    also have "(2::real) powi 52 = real_of_int (2 ^ 52)" by simp
    finally have e2: "(2::real) powi L = real_of_int (2 ^ 52) * 2 powi ulp_exp y"
      unfolding uy .
    have "real_of_int (2 ^ 52) \<le> y / 2 powi ulp_exp y"
      using Ly unfolding e2 by (simp add: pos_le_divide_eq zero_less_power_int)
    hence "2 ^ 52 \<le> rhe (y / 2 powi ulp_exp y)" by (rule rhe_ge)
    hence "real_of_int (2 ^ 52) * 2 powi ulp_exp y
         \<le> real_of_int (rhe (y / 2 powi ulp_exp y)) * 2 powi ulp_exp y"
      by (intro mult_right_mono) simp_all
    hence n2: "2 powi L \<le> nearest y" unfolding e2 nearest_def .
    from n1 n2 show ?thesis by linarith
  qed
qed

lemma nearest_mono: "0 \<le> x \<Longrightarrow> x \<le> y \<Longrightarrow> nearest x \<le> nearest y"
  using nearest_mono_pos [of x y] nearest_nonneg [of y] by (cases "x = 0") simp_all

lemma rnd_Fin_nearest: "rnd x = Fin g \<Longrightarrow> nearest x = g"
  by (cases "x = 0") (simp_all add: rnd_def split: if_splits)

lemma rnd_upper:
  assumes "0 \<le> x" and "x \<le> g" and "rnd g = Fin g"
  shows "\<exists>y. rnd x = Fin y \<and> 0 \<le> y \<and> y \<le> g"
proof (cases "x = 0")
  case True
  with assms show ?thesis by simp
next
  case False
  have g: "nearest g = g" using assms(3) by (rule rnd_Fin_nearest)
  have g0: "g \<noteq> 0" using False assms by linarith
  have "\<not> 2 ^ 1024 \<le> \<bar>nearest g\<bar>" using assms(3) g0 by (simp add: rnd_def split: if_splits)
  hence b: "g < 2 ^ 1024" unfolding g by linarith
  have n: "0 \<le> nearest x" using assms(1) by (rule nearest_nonneg)
  have "nearest x \<le> nearest g" using assms(1,2) by (rule nearest_mono)
  hence le: "nearest x \<le> g" unfolding g .
  hence "\<not> 2 ^ 1024 \<le> \<bar>nearest x\<bar>" using n b by linarith
  hence "rnd x = Fin (nearest x)" using False by (simp add: rnd_def)
  with n le show ?thesis by blast
qed



lemma rnd_near:
  assumes b: "2 powi k \<le> \<bar>x\<bar>" "\<bar>x\<bar> < 2 powi (k + 1)" and k: "- 1022 \<le> k" "k \<le> 1022"
    and n: "real_of_int n - 1 / 2 < x / 2 powi (k - 52)" "x / 2 powi (k - 52) < real_of_int n + 1 / 2"
    and m: "\<bar>n\<bar> \<le> 2 ^ 53"
  shows "rnd x = Fin (real_of_int n * 2 powi (k - 52))"
proof -
  have u: "ulp_exp x = k - 52" using ulp_exp_binade [OF b] k by simp
  have r: "rhe (x / 2 powi (k - 52)) = n" using n by (rule rhe_near)
  have nx: "nearest x = real_of_int n * 2 powi (k - 52)"
    by (simp add: nearest_def u r)
  have "(0::real) < 2 powi k" by (simp add: zero_less_power_int)
  hence "0 < \<bar>x\<bar>" using b(1) by linarith
  hence x0: "x \<noteq> 0" by simp
  have "\<bar>real_of_int n\<bar> \<le> 2 ^ 53"
    using m by (metis of_int_abs of_int_le_numeral_power_cancel_iff)
  hence "\<bar>real_of_int n * 2 powi (k - 52)\<bar> \<le> 2 ^ 53 * 2 powi (k - 52)"
    by (simp add: abs_mult mult_right_mono)
  also have "\<dots> = 2 powi 53 * 2 powi (k - 52)" by simp
  also have "\<dots> = 2 powi (53 + (k - 52))" by (rule power_int_add [symmetric]) simp
  also have "\<dots> \<le> 2 powi 1023" using k by (intro power_int_increasing) simp_all
  also have "\<dots> < 2 ^ 1024" by simp
  finally have "\<not> 2 ^ 1024 \<le> \<bar>nearest x\<bar>" unfolding nx by simp
  thus ?thesis using x0 nx by (simp add: rnd_def)
qed

section \<open>Properties of the grid step\<close>

lemma ln10_ge_2: "2 \<le> ln (10::real)"
proof -
  have e: "exp (1::real) \<le> 3" by (rule exp_le)
  have "exp (2::real) = exp 1 * exp 1" by (simp flip: exp_add)
  also have "\<dots> \<le> 3 * 3" using e by (intro mult_mono) simp_all
  finally have "exp (2::real) \<le> 10" by simp
  thus ?thesis by (simp add: ln_ge_iff)
qed

lemma log10_lower:
  assumes y: "0 < y" and t: "0 \<le> t" and h: "10 powr c < y * (1 + 2 * t)"
  shows "c - t < log 10 y"
proof -
  have "2 * t \<le> t * ln 10"
    using t ln10_ge_2 by (simp add: mult.commute mult_left_mono)
  hence "1 + 2 * t \<le> 1 + t * ln 10" by simp
  also have "\<dots> \<le> exp (t * ln 10)" by (rule exp_ge_add_one_self)
  also have "\<dots> = 10 powr t" by (simp add: powr_def)
  finally have e: "1 + 2 * t \<le> 10 powr t" .
  have p: "0 < 1 + 2 * t" using t by linarith
  have "10 powr (c - t) = 10 powr c / 10 powr t" by (simp add: powr_diff)
  also have "\<dots> \<le> 10 powr c / (1 + 2 * t)"
    using e p by (intro divide_left_mono) simp_all
  also have "\<dots> < y" using h p by (simp add: pos_divide_less_eq)
  finally have "10 powr (c - t) < y" .
  thus ?thesis using y by (simp add: less_log_iff)
qed



lemma literal_1e_12_bounds:
  "0 < literal_1e_12" "literal_1e_12 \<le> 1 / 10 ^ 12" "1 / 10 ^ 12 < literal_1e_12 * (1 + 2 * (1 / 2 ^ 50))"
  by (simp_all add: literal_1e_12_def field_simps)





lemma thresholds:
  "rnd 2 = Fin 2" "rnd 5 = Fin 5" "rnd 1 = Fin 1"
  "rnd (2 - 1 / 2 ^ 52) = Fin (2 - 1 / 2 ^ 52)" "rnd (5 - 1 / 2 ^ 50) = Fin (5 - 1 / 2 ^ 50)"
proof -
  show "rnd 2 = Fin 2" "rnd 5 = Fin 5" "rnd 1 = Fin 1"
    using rnd_int [of 2] rnd_int [of 5] rnd_int [of 1] by simp_all
  have "(2 - 1 / 2 ^ 52 :: real) = real_of_int (2 ^ 53 - 1) / 2 ^ 52" by simp
  moreover have "rnd (real_of_int (2 ^ 53 - 1) / 2 ^ 52) = Fin (real_of_int (2 ^ 53 - 1) / 2 ^ 52)"
    by (rule rnd_dyadic) simp_all
  ultimately show "rnd (2 - 1 / 2 ^ 52) = Fin (2 - 1 / 2 ^ 52)" by simp
  have "(5 - 1 / 2 ^ 50 :: real) = real_of_int (5 * 2 ^ 50 - 1) / 2 ^ 50" by simp
  moreover have "rnd (real_of_int (5 * 2 ^ 50 - 1) / 2 ^ 50) = Fin (real_of_int (5 * 2 ^ 50 - 1) / 2 ^ 50)"
    by (rule rnd_dyadic) simp_all
  ultimately show "rnd (5 - 1 / 2 ^ 50) = Fin (5 - 1 / 2 ^ 50)" by simp
qed










text \<open>
  Where \<^verbatim>\<open>Math.log10\<close> rounds up to an integer the power of ten is the next one. The range
  \<^verbatim>\<open>999.9999999999999\<close> is the binary64 number \<open>1000 - 2\<^sup>-\<^sup>4\<^sup>3\<close>; its tenth is computed as
  \<open>100 - 2\<^sup>-\<^sup>4\<^sup>6\<close>, whose logarithm is nearer to 2 than to any other binary64 number, and
  \<open>niceStep\<close> returns 100, above the tenth of the range.
\<close>

lemma niceStep_rounding_example:
  "rnd (1000 - 1 / 2 ^ 43) = Fin (1000 - 1 / 2 ^ 43)
   \<and> niceStep log10_rounded pow10_rounded (Fin (1000 - 1 / 2 ^ 43)) = Fin 100
   \<and> (1000 - 1 / 2 ^ 43) / 10 < (100::real)"
proof -
  define y :: real where "y = 100 - 1 / 2 ^ 46"
  define x where "x = log 10 y"
  have y: "0 < y" "y < 100" "literal_1e_12 \<le> y" "1 \<le> y"
    using literal_1e_12_bounds(2) by (simp_all add: y_def)
  have "(1000 - 1 / 2 ^ 43 :: real) = real_of_int (1000 * 2 ^ 43 - 1) / 2 ^ 43" by simp
  moreover have "rnd (real_of_int (1000 * 2 ^ 43 - 1) / 2 ^ 43) = Fin (real_of_int (1000 * 2 ^ 43 - 1) / 2 ^ 43)"
    by (rule rnd_dyadic) simp_all
  ultimately have 1: "rnd (1000 - 1 / 2 ^ 43) = Fin (1000 - 1 / 2 ^ 43)" by simp
  have "rnd ((1000 - 1 / 2 ^ 43) / 10) = Fin (real_of_int (100 * 2 ^ 46 - 1) * 2 powi (6 - 52))"
    by (rule rnd_near) (simp_all add: power_int_minus field_simps)
  also have "real_of_int (100 * 2 ^ 46 - 1) * 2 powi (6 - 52) = y"
    by (simp add: y_def power_int_minus field_simps)
  finally have tenth: "ddiv (Fin (1000 - 1 / 2 ^ 43)) (Fin 10) = Fin y" by simp
  have m: "Math_max (Fin y) (Fin literal_1e_12) = Fin y"
    using y(3) by (simp add: max_def)
  have p: "(10::real) powr 2 = 100" by simp
  have "y < 10 powr 2" using y(2) unfolding p .
  hence ub: "x < 2" unfolding x_def using y(1) by (simp add: log_less_iff)
  have "10 powr 2 < y * (1 + 2 * (1 / 2 ^ 53))"
    unfolding p by (simp add: y_def field_simps)
  with y(1) have lb: "2 - 1 / 2 ^ 53 < x"
    unfolding x_def by (intro log10_lower) simp_all
  have ax: "\<bar>x\<bar> = x" using lb by simp
  have "rnd x = Fin (real_of_int (2 ^ 53) * 2 powi (0 - 52))"
  proof (rule rnd_near)
    show "2 powi 0 \<le> \<bar>x\<bar>" unfolding ax using lb by simp
    show "\<bar>x\<bar> < 2 powi (0 + 1)" unfolding ax using ub by simp
    show "real_of_int (2 ^ 53) - 1 / 2 < x / 2 powi (0 - 52)"
      using lb by (simp add: power_int_minus field_simps)
    show "x / 2 powi (0 - 52) < real_of_int (2 ^ 53) + 1 / 2"
      using ub by (simp add: power_int_minus field_simps)
  qed simp_all
  also have "real_of_int (2 ^ 53) * 2 powi (0 - 52) = 2"
    by (simp add: power_int_minus field_simps)
  finally have lg: "log10_rounded (Fin y) = Fin 2"
    using y(1) by (simp add: log10_rounded_def x_def)
  have pp: "pow10_of pow10_rounded (Fin 2) = Fin 100"
    using rnd_int [of 100] by (simp add: pow10_of_def pow10_rounded_def)
  have "0 \<le> y / 100" "y / 100 \<le> 1" using y(1,2) by simp_all
  from rnd_upper [OF this thresholds(3)]
  obtain r where r: "rnd (y / 100) = Fin r" "r \<le> 1" by blast
  have q: "ddiv (Fin y) (Fin 100) = Fin r" using r(1) by simp
  have 2: "niceStep log10_rounded pow10_rounded (Fin (1000 - 1 / 2 ^ 43)) = Fin 100"
    unfolding niceStep_def Let_def tenth m lg pp q
    using r(2) rnd_int [of 100] by (simp add: dle_def)
  have 3: "(1000 - 1 / 2 ^ 43) / 10 < (100::real)" by simp
  from 1 2 3 show ?thesis by blast
qed

section \<open>Properties of the bisection\<close>

lemma bisect_mid_towards_one:
  assumes "k \<le> 52"
  shows "dmul (Fin (1 / 2)) (dadd (Fin (1 - 1 / 2 ^ k)) (Fin 1)) = Fin (1 - 1 / 2 ^ Suc k)"
proof -
  have n: "\<bar>2 ^ Suc k - 1 :: int\<bar> < 2 ^ 53"
  proof -
    have "(2::int) ^ Suc k \<le> 2 ^ 53" using assms by (intro power_increasing) simp_all
    moreover have "(1::int) \<le> 2 ^ Suc k" by (rule one_le_power) simp
    ultimately show ?thesis by linarith
  qed
  have s: "(1 - 1 / 2 ^ k + 1 :: real) = real_of_int (2 ^ Suc k - 1) / 2 ^ k"
    by (simp add: field_simps)
  have h: "(1 / 2 * (real_of_int (2 ^ Suc k - 1) / 2 ^ k) :: real) = real_of_int (2 ^ Suc k - 1) / 2 ^ Suc k"
    by simp
  have r: "(1 - 1 / 2 ^ Suc k :: real) = real_of_int (2 ^ Suc k - 1) / 2 ^ Suc k"
    by (simp add: field_simps)
  have "dadd (Fin (1 - 1 / 2 ^ k)) (Fin 1) = Fin (real_of_int (2 ^ Suc k - 1) / 2 ^ k)"
    unfolding dadd.simps s using n assms by (intro rnd_dyadic) simp_all
  moreover have "dmul (Fin (1 / 2)) (Fin (real_of_int (2 ^ Suc k - 1) / 2 ^ k)) = Fin (real_of_int (2 ^ Suc k - 1) / 2 ^ Suc k)"
    unfolding dmul.simps h using n assms by (intro rnd_dyadic) simp_all
  ultimately show ?thesis unfolding r by simp
qed

lemma bisect_loop_no_sign_change:
  assumes "c \<noteq> 0" and "rnd (c * c) = Fin 0"
  shows "k + n \<le> 52 \<Longrightarrow>
     bisect_loop (\<lambda>x. Fin c) n (Fin (1 - 1 / 2 ^ k)) (Fin 1) (Fin c) (Fin c)
       = Some (Fin (1 - 1 / 2 ^ (k + n + 1)))"
proof (induction n arbitrary: k)
  case 0
  then show ?case using bisect_mid_towards_one [of k] by simp
next
  case (Suc n)
  have k: "k \<le> 52" using Suc.prems by simp
  have "bisect_loop (\<lambda>x. Fin c) (Suc n) (Fin (1 - 1 / 2 ^ k)) (Fin 1) (Fin c) (Fin c)
      = bisect_loop (\<lambda>x. Fin c) n (Fin (1 - 1 / 2 ^ Suc k)) (Fin 1) (Fin c) (Fin c)"
    using assms by (simp only: bisect_loop.simps bisect_mid_towards_one [OF k] dmul.simps) simp
  also have "\<dots> = Some (Fin (1 - 1 / 2 ^ (Suc k + n + 1)))"
    using Suc.prems by (intro Suc.IH) simp
  finally show ?case by simp
qed

lemma powi_m700_sq: "(2::real) powi (- 700) * 2 powi (- 700) = 2 powi (- 1400)"
  by (simp flip: power_int_add)

lemma tiny_product: "rnd (2 powi (- 700) * 2 powi (- 700)) = Fin 0"
  unfolding powi_m700_sq
proof (rule rnd_underflow)
  have "(2::real) powi (- 1400) < 2 powi (- 1075)"
    by (rule power_int_strict_increasing) simp_all
  moreover have "(0::real) < 2 powi (- 1400)" by (simp add: zero_less_power_int)
  ultimately show "\<bar>(2::real) powi (- 1400)\<bar> < 2 powi (- 1075)" by linarith
qed

text \<open>
  C7 at the constant function \<open>2\<^sup>-\<^sup>7\<^sup>0\<^sup>0\<close> on the bracket from 0 to 1: the value is a binary64
  number, both endpoint values are finite, positive and equal, so they have the same sign
  and neither is zero; their product is below the least binary64 magnitude and is zero, the
  test \<^verbatim>\<open>ya * yb > 0\<close> is false, and \<^verbatim>\<open>bisectRoot\<close> does not return \<^verbatim>\<open>null\<close>: it bisects 32 times
  towards 1 and returns \<open>1 - 2\<^sup>-\<^sup>3\<^sup>3\<close>.
\<close>

theorem bisectRoot_same_sign_underflow:
  "rnd (2 powi (- 700)) = Fin (2 powi (- 700))
   \<and> (0::real) < 2 powi (- 700)
   \<and> bisectRoot (\<lambda>x. Fin (2 powi (- 700))) (Fin 0) (Fin 1) (Fin (2 powi (- 700))) (Fin (2 powi (- 700))) 32
       = Some (Fin (1 - 1 / 2 ^ 33))"
proof -
  have 1: "rnd (2 powi (- 700)) = Fin (2 powi (- 700))"
    using rnd_dyadic [of 1 700] by (simp add: power_int_minus field_simps)
  have 2: "(0::real) < 2 powi (- 700)" by (simp add: zero_less_power_int)
  have "bisect_loop (\<lambda>x. Fin (2 powi (- 700))) 32 (Fin (1 - 1 / 2 ^ 0)) (Fin 1) (Fin (2 powi (- 700))) (Fin (2 powi (- 700)))
      = Some (Fin (1 - 1 / 2 ^ (0 + 32 + 1)))"
    using 2 tiny_product by (intro bisect_loop_no_sign_change) simp_all
  hence 3: "bisectRoot (\<lambda>x. Fin (2 powi (- 700))) (Fin 0) (Fin 1) (Fin (2 powi (- 700))) (Fin (2 powi (- 700))) 32
       = Some (Fin (1 - 1 / 2 ^ 33))"
    unfolding bisectRoot_def Let_def using tiny_product by (simp del: power_int_minus)
  from 1 2 3 show ?thesis by blast
qed


lemma bisect_loop_overflowed:
  assumes "f PosInf = Fin 1"
  shows "bisect_loop f n (Fin a) PosInf (Fin (- 1)) (Fin 1) = Some PosInf"
proof (induction n)
  case 0
  show ?case by simp
next
  case (Suc n)
  have "rnd (- 1) = Fin (- 1)" using rnd_int [of "- 1"] by simp
  then show ?case using assms Suc.IH by simp
qed

lemma sum_overflows: "dadd (Fin (2 ^ 1023)) (Fin (3 * 2 ^ 1022)) = PosInf"
  using rnd_exact [of 5 1022] by simp

theorem bisectRoot_same_sign_underflow_witness:
  "bisectRoot (\<lambda>x. Fin (2 powi (- 700))) (Fin 0) (Fin 1) (Fin (2 powi (- 700))) (Fin (2 powi (- 700))) 32
     \<noteq> None"
  using bisectRoot_same_sign_underflow by simp

text \<open>
  C10 at the bracket from \<open>a = 2\<^sup>1\<^sup>0\<^sup>2\<^sup>3\<close> to \<open>b = 3 \<times> 2\<^sup>1\<^sup>0\<^sup>2\<^sup>2\<close>, both binary64 numbers with
  \<open>a \<le> b\<close>, and a function that is -1 below the middle of the bracket and 1 from it on: the
  sum \<^verbatim>\<open>lo + hi\<close> is \<^verbatim>\<open>Infinity\<close>, so is every midpoint, and \<^verbatim>\<open>bisectRoot\<close> returns \<^verbatim>\<open>Infinity\<close>,
  which is not in the bracket.
\<close>

theorem bisectRoot_midpoint_overflow:
  "rnd (2 ^ 1023) = Fin (2 ^ 1023)
   \<and> rnd (3 * 2 ^ 1022) = Fin (3 * 2 ^ 1022)
   \<and> dle (Fin (2 ^ 1023)) (Fin (3 * 2 ^ 1022))
   \<and> bisectRoot (\<lambda>x. if dlt x (Fin (5 * 2 ^ 1021)) then Fin (- 1) else Fin 1)
        (Fin (2 ^ 1023)) (Fin (3 * 2 ^ 1022)) (Fin (- 1)) (Fin 1) 32 = Some PosInf
   \<and> \<not> dle PosInf (Fin (3 * 2 ^ 1022))"
proof -
  define f where "f = (\<lambda>x. if dlt x (Fin (5 * 2 ^ 1021)) then Fin (- 1) else Fin 1)"
  have 1: "rnd (2 ^ 1023) = Fin (2 ^ 1023)"
    using rnd_exact [of 1 1023] by simp
  have 2: "rnd (3 * 2 ^ 1022) = Fin (3 * 2 ^ 1022)"
    using rnd_exact [of 3 1022] by simp
  have 3: "dle (Fin (2 ^ 1023)) (Fin (3 * 2 ^ 1022))"
    by (simp add: dle_def)
  have m: "rnd (- 1) = Fin (- 1)" using rnd_int [of "- 1"] by simp
  have fi: "f PosInf = Fin 1" by (simp add: f_def)
  have "(32::nat) = Suc 31" by simp
  then have "bisect_loop f 32 (Fin (2 ^ 1023)) (Fin (3 * 2 ^ 1022)) (Fin (- 1)) (Fin 1)
      = bisect_loop f 31 (Fin (2 ^ 1023)) PosInf (Fin (- 1)) (Fin 1)"
    using fi m by (simp only: bisect_loop.simps sum_overflows) simp
  also have "\<dots> = Some PosInf" using fi by (rule bisect_loop_overflowed)
  finally have "bisectRoot f (Fin (2 ^ 1023)) (Fin (3 * 2 ^ 1022)) (Fin (- 1)) (Fin 1) 32 = Some PosInf"
    using m by (simp add: bisectRoot_def)
  hence 4: "bisectRoot (\<lambda>x. if dlt x (Fin (5 * 2 ^ 1021)) then Fin (- 1) else Fin 1)
        (Fin (2 ^ 1023)) (Fin (3 * 2 ^ 1022)) (Fin (- 1)) (Fin 1) 32 = Some PosInf"
    by (simp only: f_def)
  have 5: "\<not> dle PosInf (Fin (3 * 2 ^ 1022))"
    by (simp add: dle_def)
  from 1 2 3 4 5 show ?thesis by blast
qed

theorem bisectRoot_midpoint_overflow_witness:
  "bisectRoot (\<lambda>x. if dlt x (Fin (5 * 2 ^ 1021)) then Fin (- 1) else Fin 1)
     (Fin (2 ^ 1023)) (Fin (3 * 2 ^ 1022)) (Fin (- 1)) (Fin 1) 32 \<noteq> None"
  using bisectRoot_midpoint_overflow by simp

section \<open>Properties of the analysis\<close>

lemma append_kept_Nil: "append_kept r [] = r"
  by (simp add: append_kept_def)

lemma push_new:
  "key_of p \<notin> seen \<Longrightarrow> push p (seen, r) = (insert (key_of p) seen, append_kept r [p])"
  by (cases "ptype p") (simp_all add: push_def append_kept_def in_x_def in_y_def in_e_def in_i_def)

lemma push_seen: "key_of p \<in> seen \<Longrightarrow> push p (seen, r) = (seen, r)"
  by (simp add: push_def)

lemma append_kept_Cons: "append_kept (append_kept r [p]) K = append_kept r (p # K)"
  by (simp add: append_kept_def)

lemma foldl_push:
  "foldl (\<lambda>st p. push p st) (seen, r) ps
     = (seen \<union> key_of ` set ps, append_kept r (first_writers seen ps))"
proof (induction ps arbitrary: seen r)
  case Nil
  show ?case by (simp add: append_kept_Nil)
next
  case (Cons p ps)
  show ?case
  proof (cases "key_of p \<in> seen")
    case True
    then show ?thesis
      by (simp add: push_seen Cons.IH insert_absorb)
  next
    case False
    then show ?thesis
      by (simp add: push_new Cons.IH append_kept_Cons)
  qed
qed

lemma first_writers_distinct:
  "distinct (map key_of (first_writers seen ps)) \<and> key_of ` set (first_writers seen ps) \<inter> seen = {}"
proof (induction ps arbitrary: seen)
  case Nil
  show ?case by simp
next
  case (Cons p ps)
  show ?case
  proof (cases "key_of p \<in> seen")
    case True
    with Cons.IH [of seen] show ?thesis by simp
  next
    case False
    from Cons.IH [of "insert (key_of p) seen"]
    have d: "distinct (map key_of (first_writers (insert (key_of p) seen) ps))"
      and i: "key_of ` set (first_writers (insert (key_of p) seen) ps) \<inter> insert (key_of p) seen = {}"
      by simp_all
    from i have "key_of p \<notin> key_of ` set (first_writers (insert (key_of p) seen) ps)"
      by blast
    with d i False show ?thesis
      by auto
  qed
qed

lemma first_writers_append:
  "first_writers seen (as @ bs) = first_writers seen as @ first_writers (seen \<union> key_of ` set as) bs"
  by (induction as arbitrary: seen) (simp_all add: insert_absorb)

lemma first_writers_keys: "key_of ` set (first_writers seen ps) = key_of ` set ps - seen"
proof (induction ps arbitrary: seen)
  case Nil
  show ?case by simp
next
  case (Cons p ps)
  show ?case
    by (cases "key_of p \<in> seen") (auto simp: Cons.IH)
qed

lemma distinct_by_category:
  assumes "distinct (map key_of K)"
  shows "distinct (map key_of (filter in_x K @ filter in_y K @ filter in_e K @ filter in_i K))"
proof -
  from assms have d: "distinct K" and inj: "inj_on key_of (set K)"
    by (simp_all add: distinct_map)
  have "distinct (filter in_x K @ filter in_y K @ filter in_e K @ filter in_i K)"
    using d by (auto simp: in_x_def in_y_def in_e_def in_i_def)
  moreover have "set (filter in_x K @ filter in_y K @ filter in_e K @ filter in_i K) \<subseteq> set K"
    by auto
  ultimately show ?thesis
    using inj by (simp only: distinct_map) (blast intro: inj_on_subset)
qed

text \<open>
  C8: no two points of the aggregated list of an analysis have the same key. The list is the
  x-intercepts, the y-intercepts, the extrema and the intersections in this order, and each
  of the four is made of the candidates of its type that are the first of their key among
  all candidates in the order the analysis meets them: a candidate is kept exactly when no
  candidate before it has its key.
\<close>

theorem analysis_first_writer_wins:
  "distinct (map key_of (allPoints (analysis curves crossings)))
   \<and> allPoints (analysis curves crossings)
       = xIntercepts (analysis curves crossings) @ yIntercepts (analysis curves crossings)
         @ extrema (analysis curves crossings) @ intersections (analysis curves crossings)
   \<and> (curves \<noteq> [] \<longrightarrow>
        xIntercepts (analysis curves crossings)
          = filter (\<lambda>p. ptype p = XInt) (first_writers {} (candidates curves crossings))
      \<and> yIntercepts (analysis curves crossings)
          = filter (\<lambda>p. ptype p = YInt) (first_writers {} (candidates curves crossings))
      \<and> extrema (analysis curves crossings)
          = filter (\<lambda>p. ptype p = MaxPt \<or> ptype p = MinPt) (first_writers {} (candidates curves crossings))
      \<and> intersections (analysis curves crossings)
          = filter (\<lambda>p. ptype p = IntersectPt) (first_writers {} (candidates curves crossings)))
   \<and> (\<forall>as p bs. first_writers {} (as @ p # bs)
          = first_writers {} as
            @ (if key_of p \<in> key_of ` set as then [] else [p])
            @ first_writers (insert (key_of p) (key_of ` set as)) bs)"
proof -
  define K where "K = first_writers {} (candidates curves crossings)"
  have r: "curves \<noteq> [] \<Longrightarrow> analysis curves crossings =
      (append_kept empty_result K)\<lparr>allPoints := filter in_x K @ filter in_y K @ filter in_e K @ filter in_i K\<rparr>"
    unfolding analysis_def Let_def foldl_push K_def
    by (simp add: append_kept_def empty_result_def)
  have dK: "distinct (map key_of K)"
    unfolding K_def using first_writers_distinct by blast
  have 1: "distinct (map key_of (allPoints (analysis curves crossings)))"
  proof (cases "curves = []")
    case True
    then show ?thesis by (simp add: analysis_def empty_result_def)
  next
    case False
    from r [OF this] distinct_by_category [OF dK] show ?thesis by simp
  qed
  have 2: "allPoints (analysis curves crossings)
       = xIntercepts (analysis curves crossings) @ yIntercepts (analysis curves crossings)
         @ extrema (analysis curves crossings) @ intersections (analysis curves crossings)"
    by (simp add: analysis_def Let_def empty_result_def)
  have 3: "curves \<noteq> [] \<longrightarrow>
        xIntercepts (analysis curves crossings) = filter (\<lambda>p. ptype p = XInt) K
      \<and> yIntercepts (analysis curves crossings) = filter (\<lambda>p. ptype p = YInt) K
      \<and> extrema (analysis curves crossings) = filter (\<lambda>p. ptype p = MaxPt \<or> ptype p = MinPt) K
      \<and> intersections (analysis curves crossings) = filter (\<lambda>p. ptype p = IntersectPt) K"
  proof
    assume "curves \<noteq> []"
    from r [OF this] show "xIntercepts (analysis curves crossings) = filter (\<lambda>p. ptype p = XInt) K
      \<and> yIntercepts (analysis curves crossings) = filter (\<lambda>p. ptype p = YInt) K
      \<and> extrema (analysis curves crossings) = filter (\<lambda>p. ptype p = MaxPt \<or> ptype p = MinPt) K
      \<and> intersections (analysis curves crossings) = filter (\<lambda>p. ptype p = IntersectPt) K"
      by (simp add: append_kept_def empty_result_def in_x_def [abs_def] in_y_def [abs_def]
            in_e_def [abs_def] in_i_def [abs_def])
  qed
  have 4: "\<forall>as p bs. first_writers {} (as @ p # bs)
          = first_writers {} as
            @ (if key_of p \<in> key_of ` set as then [] else [p])
            @ first_writers (insert (key_of p) (key_of ` set as)) bs"
    by (simp add: first_writers_append insert_absorb)
  from 1 2 3 4 show ?thesis
    unfolding K_def by blast
qed

theorem analysis_first_writer_wins_witness:
  "allPoints (analysis [parabola] []) = [\<lparr>ptype = XInt, px = 0, py = 0, exprId = 1\<rparr>]
   \<and> distinct (map key_of (allPoints (analysis [parabola] [])))"
proof -
  have c: "candidates [parabola] [] =
      [\<lparr>ptype = XInt, px = 0, py = 0, exprId = 1\<rparr>, \<lparr>ptype = YInt, px = 0, py = 0, exprId = 1\<rparr>,
       \<lparr>ptype = MinPt, px = 1 / 10 ^ 7, py = 0, exprId = 1\<rparr>]"
    by (simp add: candidates_def curve_candidates_def parabola_def)
  have k: "first_writers {} (candidates [parabola] []) = [\<lparr>ptype = XInt, px = 0, py = 0, exprId = 1\<rparr>]"
    unfolding c by (simp add: key_of_def mapKey_def)
  show ?thesis
    using analysis_first_writer_wins [of "[parabola]" "[]"] unfolding k by simp
qed

text \<open>
  The first writer is the first in the order of the analysis, not of the aggregated list:
  the valley of the first curve is met before the root of the second and keeps the key.
\<close>

lemma analysis_order_example:
  "xIntercepts (analysis [valley_at_one, line_through_one] []) = []
   \<and> extrema (analysis [valley_at_one, line_through_one] [])
       = [\<lparr>ptype = MinPt, px = 1, py = 0, exprId = 1\<rparr>]"
proof -
  have c: "candidates [valley_at_one, line_through_one] [] =
      [\<lparr>ptype = YInt, px = 0, py = 1, exprId = 1\<rparr>, \<lparr>ptype = MinPt, px = 1, py = 0, exprId = 1\<rparr>,
       \<lparr>ptype = XInt, px = 1, py = 0, exprId = 2\<rparr>, \<lparr>ptype = YInt, px = 0, py = - 1, exprId = 2\<rparr>]"
    by (simp add: candidates_def curve_candidates_def valley_at_one_def line_through_one_def)
  have k: "first_writers {} (candidates [valley_at_one, line_through_one] []) =
      [\<lparr>ptype = YInt, px = 0, py = 1, exprId = 1\<rparr>, \<lparr>ptype = MinPt, px = 1, py = 0, exprId = 1\<rparr>,
       \<lparr>ptype = YInt, px = 0, py = - 1, exprId = 2\<rparr>]"
    unfolding c by (simp add: key_of_def mapKey_def)
  show ?thesis
    unfolding analysis_def Let_def foldl_push k
    by (simp add: append_kept_def empty_result_def in_x_def in_e_def)
qed

section \<open>Properties of the classifier\<close>

subsection \<open>Every branch keeps its kind\<close>

lemma xy_parametric_part: "xy (parametric_part c env st p) = xy_step (xy st) p"
  by (cases st) (auto simp: xy_def xy_step_def parametric_part_def Let_def split: option.splits)

lemma xy_foldl: "xy (foldl (parametric_part c env) st ps) = foldl xy_step (xy st) ps"
  by (induction ps arbitrary: st) (simp_all add: xy_parametric_part)

lemma parametric_line_xy:
  "parametric_line c ps a s =
     map_option (\<lambda>(x, y). parametric_out c ps x y (t_bounds c (with_ans ps a) s)) (xy_parts s)"
proof -
  define parts where "parts = map trim (split_on 44 (replace_semicolons s))"
  define st where "st = foldl (parametric_part c (with_ans ps a)) (None, None, Fin (- 10), Fin 10) parts"
  define st0 where "st0 = foldl (parametric_part (\<lambda>t. Inl []) Map.empty) (None, None, Fin (- 10), Fin 10) parts"
  have "xy st = xy st0"
    unfolding st_def st0_def xy_foldl by (simp add: xy_def)
  then have e: "fst st = fst st0" "fst (snd st) = fst (snd st0)"
    by (simp_all add: xy_def)
  have tb: "t_bounds c (with_ans ps a) s = snd (snd st)"
    unfolding t_bounds_def st_def parts_def ..
  have l: "parametric_line c ps a s =
     (case st of
        (Some xPart, Some yPart, tmin, tmax) \<Rightarrow>
          if xPart \<noteq> [] \<and> yPart \<noteq> [] then Some (parametric_out c ps xPart yPart (tmin, tmax)) else None
      | _ \<Rightarrow> None)"
    unfolding parametric_line_def Let_def st_def parts_def parametric_out_def
    by (auto split: prod.splits option.splits sum.splits)
  have r: "xy_parts s =
     (case st0 of
        (Some xPart, Some yPart, tmin, tmax) \<Rightarrow>
          if xPart \<noteq> [] \<and> yPart \<noteq> [] then Some (xPart, yPart) else None
      | _ \<Rightarrow> None)"
    unfolding xy_parts_def st0_def parts_def ..
  show ?thesis
    unfolding l r tb using e
    by (cases st; cases st0) (auto split: option.splits)
qed

lemma classifyLine_core:
  "classifyLine c a e =
     (mk e (line_params e) (detectParams (src e)) (fst (core c a (line_params e) (line_source e))),
      snd (core c a (line_params e) (line_source e)))"
proof -
  define s where "s = line_source e"
  define ps where "ps = line_params e"
  define polar where "polar = (if has_word (js ''theta'') s then match_r_eq s else None)"
  define par where "par = (if js_includes s (js ''x='') \<and> js_includes s (js ''y='') \<and> has_word (js ''t'') s
            then xy_parts s else None)"
  have cl: "classifyLine c a e =
     (case match_y_eq s of
        Some g \<Rightarrow> (mk e ps (detectParams (src e)) (explicit_line c ps g), a)
      | None \<Rightarrow>
     (case polar of
        Some g \<Rightarrow> (mk e ps (detectParams (src e)) (polar_line c ps a g s), a)
      | None \<Rightarrow>
     (case map_option (\<lambda>(x, y). parametric_out c ps x y (t_bounds c (with_ans ps a) s)) par of
        Some r \<Rightarrow> (mk e ps (detectParams (src e)) r, a)
      | None \<Rightarrow>
     (case match_double s of
        Some m \<Rightarrow> (mk e ps (detectParams (src e)) (double_line c ps m), a)
      | None \<Rightarrow>
     (case find_cmp s of
        Some m \<Rightarrow> (mk e ps (detectParams (src e)) (inequality_line c ps s m), a)
      | None \<Rightarrow>
     if js_includes s (js ''='') \<and> has_word (js ''x'') s \<and> has_word (js ''y'') s
     then (mk e ps (detectParams (src e)) (implicit_line c ps s), a)
     else if \<not> has_word (js ''x'') s \<and> \<not> has_word (js ''y'') s \<and> \<not> has_word (js ''t'') s
             \<and> \<not> has_word (js ''theta'') s \<and> \<not> js_includes s (js ''='')
     then (mk e ps (detectParams (src e)) (fst (scalar_line c ps a s)), snd (scalar_line c ps a s))
     else (mk e ps (detectParams (src e)) (explicit_line c ps s), a))))))"
    unfolding classifyLine_def Let_def ps_def line_params_def s_def line_source_def polar_def par_def
      parametric_line_xy
    by (simp only: if_distrib [of "map_option _"] option.map)
  have br: "branch_of s =
     (case match_y_eq s of
        Some g \<Rightarrow> BExplicit g
      | None \<Rightarrow>
     (case polar of
        Some g \<Rightarrow> BPolar g
      | None \<Rightarrow>
     (case par of
        Some (xPart, yPart) \<Rightarrow> BParametric xPart yPart
      | None \<Rightarrow>
     (case match_double s of
        Some (tA, op1, tB, op2, tC) \<Rightarrow> BDouble tA op1 tB op2 tC
      | None \<Rightarrow>
     (case find_cmp s of
        Some (op, i) \<Rightarrow> BInequality op i
      | None \<Rightarrow>
     if js_includes s (js ''='') \<and> has_word (js ''x'') s \<and> has_word (js ''y'') s then BImplicit
     else if \<not> has_word (js ''x'') s \<and> \<not> has_word (js ''y'') s \<and> \<not> has_word (js ''t'') s
             \<and> \<not> has_word (js ''theta'') s \<and> \<not> js_includes s (js ''='')
     then BScalar
     else BFallback)))))"
    unfolding branch_of_def polar_def par_def ..
  show ?thesis
    unfolding ps_def [symmetric] s_def [symmetric]
  proof (cases "match_y_eq s")
    case (Some g)
    then show "classifyLine c a e = (mk e ps (detectParams (src e)) (fst (core c a ps s)), snd (core c a ps s))"
      unfolding cl core_def br by simp
  next
    case None
    note n1 = this
    show "classifyLine c a e = (mk e ps (detectParams (src e)) (fst (core c a ps s)), snd (core c a ps s))"
    proof (cases polar)
      case (Some g)
      with n1 show ?thesis
        unfolding cl core_def br by simp
    next
      case None
      note n2 = this
      show ?thesis
      proof (cases par)
        case (Some xy)
        with n1 n2 show ?thesis
          unfolding cl core_def br by (cases xy) simp
      next
        case None
        note n3 = this
        show ?thesis
        proof (cases "match_double s")
          case (Some m)
          with n1 n2 n3 show ?thesis
            unfolding cl core_def br by (cases m) simp
        next
          case None
          note n4 = this
          show ?thesis
          proof (cases "find_cmp s")
            case (Some m)
            with n1 n2 n3 n4 show ?thesis
              unfolding cl core_def br by (cases m) simp
          next
            case None
            with n1 n2 n3 n4 show ?thesis
              unfolding cl core_def br by simp
          qed
        qed
      qed
    qed
  qed
qed

lemma message_of_nonempty: "message_of msg \<noteq> []"
  by (simp add: message_of_def)

lemma mk_fields:
  "payload (mk e ps names r) = fst r" "error (mk e ps names r) = snd r" "params (mk e ps names r) = ps"
  "src (mk e ps names r) = src e" "visible (mk e ps names r) = visible e"
  by (simp_all add: mk_def expression.extend_def compiled.fields_def)

lemma explicit_line_ok: "branch_ok c [t] Explicit (explicit_line c ps t)"
  by (cases "c t") (simp_all add: branch_ok_def explicit_line_def message_of_nonempty)

lemma polar_line_ok: "branch_ok c [g] Polar (polar_line c ps a g s)"
  by (cases "c g"; cases "match_theta_range s")
     (auto simp: branch_ok_def polar_line_def message_of_nonempty)

lemma parametric_out_ok: "branch_ok c [x, y] Parametric (parametric_out c ps x y tb)"
  by (cases "c x"; cases "c y") (auto simp: branch_ok_def parametric_out_def message_of_nonempty)

lemma double_line_ok: "branch_ok c [tA, tB, tC] DoubleIneq (double_line c ps (tA, op1, tB, op2, tC))"
  by (cases "c tA"; cases "c tB"; cases "c tC")
     (auto simp: branch_ok_def double_line_def message_of_nonempty)

lemma inequality_line_ok:
  "branch_ok c [take i s, drop (i + length op) s] Inequality (inequality_line c ps s (op, i))"
  by (cases "c (take i s)"; cases "c (drop (i + length op) s)")
     (auto simp: branch_ok_def inequality_line_def message_of_nonempty)

lemma implicit_line_ok:
  "branch_ok c (case split_on 61 s of [l, r] \<Rightarrow> [l, r] | _ \<Rightarrow> []) Implicit (implicit_line c ps s)"
proof (cases "\<exists>l r. split_on 61 s = [l, r]")
  case True
  then obtain l r where lr: "split_on 61 s = [l, r]" by blast
  show ?thesis
    unfolding lr by (cases "c l"; cases "c r")
      (auto simp: branch_ok_def implicit_line_def lr message_of_nonempty)
next
  case False
  then have i: "implicit_line c ps s = (ImplicitP None, ''Only one '=' allowed'')"
    unfolding implicit_line_def by (auto split: list.splits)
  from False have t: "(case split_on 61 s of [l, r] \<Rightarrow> [l, r] | _ \<Rightarrow> []) = []"
    by (auto split: list.splits)
  show ?thesis
    unfolding i t by (simp add: branch_ok_def)
qed

lemma scalar_line_ok: "branch_ok c [s] Scalar (fst (scalar_line c ps a s))"
proof (cases "c s")
  case (Inl msg)
  then show ?thesis
    by (simp add: branch_ok_def scalar_line_def message_of_nonempty)
next
  case (Inr ast)
  then show ?thesis
    by (cases "ast (with_ans ps a)")
       (simp_all add: branch_ok_def scalar_line_def message_of_nonempty Let_def)
qed

lemma scalar_line_register:
  "snd (scalar_line c ps a s) = (case fst (fst (scalar_line c ps a s)) of ScalarP (Fin v) \<Rightarrow> v | _ \<Rightarrow> a)"
proof (cases "c s")
  case (Inl msg)
  then show ?thesis by (simp add: scalar_line_def)
next
  case (Inr ast)
  show ?thesis
  proof (cases "ast (with_ans ps a)")
    case (Inl msg)
    with Inr show ?thesis by (simp add: scalar_line_def)
  next
    case (Inr v)
    with \<open>c s = Inr ast\<close> show ?thesis
      by (cases v) (simp_all add: scalar_line_def Let_def)
  qed
qed

lemma scalar_line_value:
  assumes "snd (fst (scalar_line c ps a s)) = []"
  shows "\<exists>ast y. c s = Inr ast \<and> ast (with_ans ps a) = Inr y
           \<and> fst (fst (scalar_line c ps a s)) = ScalarP (if isFinite y then y else NaN)"
proof (cases "c s")
  case (Inl msg)
  with assms show ?thesis by (simp add: scalar_line_def message_of_nonempty)
next
  case (Inr ast)
  show ?thesis
  proof (cases "ast (with_ans ps a)")
    case (Inl msg)
    with Inr assms show ?thesis by (simp add: scalar_line_def message_of_nonempty)
  next
    case (Inr v)
    with \<open>c s = Inr ast\<close> show ?thesis
      by (simp add: scalar_line_def Let_def)
  qed
qed

lemma core_ok: "branch_ok c (branch_texts s) (branch_kind (branch_of s)) (fst (core c a ps s))"
proof (cases "branch_of s")
  case (BExplicit g)
  then show ?thesis
    by (simp add: core_def branch_texts_def explicit_line_ok)
next
  case (BPolar g)
  then show ?thesis
    by (simp add: core_def branch_texts_def polar_line_ok)
next
  case (BParametric x y)
  then show ?thesis
    by (simp add: core_def branch_texts_def parametric_out_ok)
next
  case (BDouble tA op1 tB op2 tC)
  then show ?thesis
    by (simp add: core_def branch_texts_def double_line_ok)
next
  case (BInequality op i)
  then show ?thesis
    by (simp add: core_def branch_texts_def inequality_line_ok)
next
  case BImplicit
  then show ?thesis
    by (simp add: core_def branch_texts_def implicit_line_ok)
next
  case BScalar
  then show ?thesis
    by (simp add: core_def branch_texts_def scalar_line_ok)
next
  case BFallback
  then show ?thesis
    by (simp add: core_def branch_texts_def explicit_line_ok)
qed

lemma core_register:
  "snd (core c a ps s) = (case fst (fst (core c a ps s)) of ScalarP (Fin v) \<Rightarrow> v | _ \<Rightarrow> a)"
proof (cases "branch_of s = BScalar")
  case True
  then show ?thesis
    by (simp add: core_def scalar_line_register)
next
  case False
  then have k: "branch_kind (branch_of s) \<noteq> Scalar"
    by (cases "branch_of s") simp_all
  from False have "snd (core c a ps s) = a"
    by (cases "branch_of s") (simp_all add: core_def)
  moreover from core_ok [of c s a ps] k have "kind (fst (fst (core c a ps s))) \<noteq> Scalar"
    by (simp add: branch_ok_def)
  then have "(case fst (fst (core c a ps s)) of ScalarP (Fin v) \<Rightarrow> v | _ \<Rightarrow> a) = a"
    by (cases "fst (fst (core c a ps s))") simp_all
  ultimately show ?thesis by simp
qed

lemma core_scalar:
  assumes "kind (fst (fst (core c a ps s))) = Scalar" and "snd (fst (core c a ps s)) = []"
  shows "\<exists>ast y. c s = Inr ast \<and> ast (with_ans ps a) = Inr y
           \<and> fst (fst (core c a ps s)) = ScalarP (if isFinite y then y else NaN)"
proof -
  from core_ok [of c s a ps] assms(1) have "branch_kind (branch_of s) = Scalar"
    by (simp add: branch_ok_def)
  then have "branch_of s = BScalar"
    by (cases "branch_of s") simp_all
  then have "core c a ps s = scalar_line c ps a s"
    by (simp add: core_def)
  with assms(2) scalar_line_value [of c ps a s] show ?thesis
    by simp
qed

subsection \<open>The example lines\<close>

lemmas str_simps = js_def match_y_eq_def is_space_def dot_plus_end_def is_line_terminator_def
  match_r_eq_def is_word_def match_r_here_def not_sep_def has_word_def trim_def theta_glyph_def
  le_glyph_def ge_glyph_def lower_def in_g1_def in_g2_def g2_here_def after_g1_def g1_here_def
  range_here_def t_range_test_def match_comma_sep_def cmp_ops_def norm_def ops_at_def
  no_line_terminator_def match_double_def find_cmp_def is_ident_start_def
  List.map_filter_def replace_semicolons_def

lemmas branch_simps = branch_of_def xy_parts_def parametric_part_def nth_opt_def range_bound_def

lemma classifyLine_ok:
  "branch_ok c (branch_texts (line_source e)) (branch_kind (branch_of (line_source e)))
     (payload (fst (classifyLine c a e)), error (fst (classifyLine c a e)))"
  using core_ok [of c "line_source e" a "line_params e"]
  by (simp add: classifyLine_core mk_fields)

lemma classifyLine_kind:
  "kind (payload (fst (classifyLine c a e))) = branch_kind (branch_of (line_source e))"
  using classifyLine_ok [of c e a] by (simp add: branch_ok_def)

lemma classifyLine_register:
  "snd (classifyLine c a e) = (case payload (fst (classifyLine c a e)) of ScalarP (Fin v) \<Rightarrow> v | _ \<Rightarrow> a)"
  using core_register [of c a "line_params e" "line_source e"]
  by (simp add: classifyLine_core mk_fields)

lemma branch_of_explicit_example: "branch_of (js ''y = x^2'') = BExplicit (js ''x^2'')"
  by (simp add: branch_simps str_simps)
lemma branch_of_implicit_example: "branch_of (js ''x^2+y^2=4'') = BImplicit"
  by (simp add: branch_simps str_simps)
lemma branch_of_inequality_example: "branch_of (js ''x^2+y^2<=4'') = BInequality (js ''<='') 7"
  by (simp add: branch_simps str_simps)
lemma branch_of_double_example: "branch_of (js ''1<=x^2+y^2<=4'') = BDouble (js ''1'') (js ''<='') (js ''x^2+y^2'') (js ''<='') (js ''4'')"
  by (simp add: branch_simps str_simps)
lemma branch_of_parametric_example: "branch_of (js ''x=cos(t), y=sin(t), t=[0,2*pi]'') = BParametric (js ''cos(t)'') (js ''sin(t)'')"
  by (simp add: branch_simps str_simps)
lemma branch_of_polar_example: "branch_of (js ''r=1+0.5*cos(theta)'') = BPolar (js ''1+0.5*cos(theta)'')"
  by (simp add: branch_simps str_simps)
lemma branch_of_scalar_example: "branch_of (js ''2+3*4'') = BScalar"
  by (simp add: branch_simps str_simps)
lemma branch_of_fallback_example: "branch_of (js ''sin(x)'') = BFallback"
  by (simp add: branch_simps str_simps)

lemma t_bounds_parametric_example: "t_bounds c env (js ''x=cos(t), y=sin(t), t=[0,2*pi]'') = (Fin (- 10), Fin 10)"
  by (simp add: t_bounds_def branch_simps str_simps)

lemma sum_of_products_14: "\<exists>ast. sum_of_products (js ''2+3*4'') = Inr ast \<and> (\<forall>env. ast env = Inr (Fin 14))"
  by (simp add: sum_of_products_def product_of_def atom_def lift2_def str_simps)

lemma line_source_literal:
  "line_source (e\<lparr>src := js ''y = x^2''\<rparr>) = js ''y = x^2''"
  "line_source (e\<lparr>src := js ''x^2+y^2=4''\<rparr>) = js ''x^2+y^2=4''"
  "line_source (e\<lparr>src := js ''x^2+y^2<=4''\<rparr>) = js ''x^2+y^2<=4''"
  "line_source (e\<lparr>src := js ''1<=x^2+y^2<=4''\<rparr>) = js ''1<=x^2+y^2<=4''"
  "line_source (e\<lparr>src := js ''x=cos(t), y=sin(t), t=[0,2*pi]''\<rparr>) = js ''x=cos(t), y=sin(t), t=[0,2*pi]''"
  "line_source (e\<lparr>src := js ''r=1+0.5*cos(theta)''\<rparr>) = js ''r=1+0.5*cos(theta)''"
  "line_source (e\<lparr>src := js ''2+3*4''\<rparr>) = js ''2+3*4''"
  "line_source (e\<lparr>src := js ''sin(x)''\<rparr>) = js ''sin(x)''"
  by (simp_all add: line_source_def str_simps)

lemma inequality_example_op:
  "op_of (fst (inequality_line c ps (js ''x^2+y^2<=4'') (js ''<='', 7))) = Some Le"
  by (cases "c (take 7 (js ''x^2+y^2<=4''))"; cases "c (drop (7 + length (js ''<='')) (js ''x^2+y^2<=4''))")
     (simp_all add: inequality_line_def norm_def js_def le_glyph_def)

lemma scalar_example_value:
  assumes "c (js ''2+3*4'') = Inr ast" and "\<And>env. ast env = Inr (Fin 14)"
  shows "fst (scalar_line c ps a (js ''2+3*4'')) = (ScalarP (Fin 14), [])"
  using assms by (simp add: scalar_line_def Let_def)

text \<open>
  C1: whatever the compiler accepts, the classifier gives "y = x^2" the kind explicit,
  "x^2+y^2=4" implicit, "x^2+y^2<=4" inequality with the operator le, "1<=x^2+y^2<=4" the
  double inequality, "x=cos(t), y=sin(t), t=[0,2*pi]" parametric, "r=1+0.5*cos(theta)" polar
  and "2+3*4" scalar, with the value 14 when the compiled text evaluates to 14; "sin(x)" does
  not match \<^verbatim>\<open>y = ...\<close> and is explicit by the fallback.
\<close>

theorem classifier_examples:
  "kind (payload (fst (classifyLine c a (e\<lparr>src := js ''y = x^2''\<rparr>)))) = Explicit
   \<and> kind (payload (fst (classifyLine c a (e\<lparr>src := js ''x^2+y^2=4''\<rparr>)))) = Implicit
   \<and> kind (payload (fst (classifyLine c a (e\<lparr>src := js ''x^2+y^2<=4''\<rparr>)))) = Inequality
   \<and> op_of (payload (fst (classifyLine c a (e\<lparr>src := js ''x^2+y^2<=4''\<rparr>)))) = Some Le
   \<and> kind (payload (fst (classifyLine c a (e\<lparr>src := js ''1<=x^2+y^2<=4''\<rparr>)))) = DoubleIneq
   \<and> kind (payload (fst (classifyLine c a (e\<lparr>src := js ''x=cos(t), y=sin(t), t=[0,2*pi]''\<rparr>)))) = Parametric
   \<and> kind (payload (fst (classifyLine c a (e\<lparr>src := js ''r=1+0.5*cos(theta)''\<rparr>)))) = Polar
   \<and> kind (payload (fst (classifyLine c a (e\<lparr>src := js ''2+3*4''\<rparr>)))) = Scalar
   \<and> ((\<exists>ast. c (js ''2+3*4'') = Inr ast \<and> (\<forall>env. ast env = Inr (Fin 14))) \<longrightarrow>
        value_of (payload (fst (classifyLine c a (e\<lparr>src := js ''2+3*4''\<rparr>)))) = Some (Fin 14))
   \<and> kind (payload (fst (classifyLine c a (e\<lparr>src := js ''sin(x)''\<rparr>)))) = Explicit
   \<and> match_y_eq (line_source (e\<lparr>src := js ''sin(x)''\<rparr>)) = None
   \<and> branch_of (line_source (e\<lparr>src := js ''sin(x)''\<rparr>)) = BFallback"
proof (intro conjI impI)
  show "kind (payload (fst (classifyLine c a (e\<lparr>src := js ''y = x^2''\<rparr>)))) = Explicit"
    by (simp add: classifyLine_kind line_source_literal branch_of_explicit_example)
  show "kind (payload (fst (classifyLine c a (e\<lparr>src := js ''x^2+y^2=4''\<rparr>)))) = Implicit"
    by (simp add: classifyLine_kind line_source_literal branch_of_implicit_example)
  show "kind (payload (fst (classifyLine c a (e\<lparr>src := js ''x^2+y^2<=4''\<rparr>)))) = Inequality"
    by (simp add: classifyLine_kind line_source_literal branch_of_inequality_example)
  show "op_of (payload (fst (classifyLine c a (e\<lparr>src := js ''x^2+y^2<=4''\<rparr>)))) = Some Le"
    by (simp add: classifyLine_core mk_fields core_def line_source_literal branch_of_inequality_example inequality_example_op)
  show "kind (payload (fst (classifyLine c a (e\<lparr>src := js ''1<=x^2+y^2<=4''\<rparr>)))) = DoubleIneq"
    by (simp add: classifyLine_kind line_source_literal branch_of_double_example)
  show "kind (payload (fst (classifyLine c a (e\<lparr>src := js ''x=cos(t), y=sin(t), t=[0,2*pi]''\<rparr>)))) = Parametric"
    by (simp add: classifyLine_kind line_source_literal branch_of_parametric_example)
  show "kind (payload (fst (classifyLine c a (e\<lparr>src := js ''r=1+0.5*cos(theta)''\<rparr>)))) = Polar"
    by (simp add: classifyLine_kind line_source_literal branch_of_polar_example)
  show "kind (payload (fst (classifyLine c a (e\<lparr>src := js ''2+3*4''\<rparr>)))) = Scalar"
    by (simp add: classifyLine_kind line_source_literal branch_of_scalar_example)
  show "kind (payload (fst (classifyLine c a (e\<lparr>src := js ''sin(x)''\<rparr>)))) = Explicit"
    by (simp add: classifyLine_kind line_source_literal branch_of_fallback_example)
  show "match_y_eq (line_source (e\<lparr>src := js ''sin(x)''\<rparr>)) = None"
    unfolding line_source_literal by (simp add: str_simps)
  show "branch_of (line_source (e\<lparr>src := js ''sin(x)''\<rparr>)) = BFallback"
    unfolding line_source_literal by (rule branch_of_fallback_example)
next
  assume "\<exists>ast. c (js ''2+3*4'') = Inr ast \<and> (\<forall>env. ast env = Inr (Fin 14))"
  then obtain ast where ast: "c (js ''2+3*4'') = Inr ast" "\<And>env. ast env = Inr (Fin 14)"
    by blast
  have "\<And>ps. fst (scalar_line c ps a (js ''2+3*4'')) = (ScalarP (Fin 14), [])"
    using ast by (rule scalar_example_value)
  then show "value_of (payload (fst (classifyLine c a (e\<lparr>src := js ''2+3*4''\<rparr>)))) = Some (Fin 14)"
    by (simp add: classifyLine_core mk_fields core_def line_source_literal branch_of_scalar_example)
qed

theorem classifier_examples_witness:
  "(\<exists>ast. sum_of_products (js ''2+3*4'') = Inr ast \<and> (\<forall>env. ast env = Inr (Fin 14)))
   \<and> value_of (payload (fst (classifyLine sum_of_products 0 ((line ''sin(x)'')\<lparr>src := js ''2+3*4''\<rparr>)))) = Some (Fin 14)
   \<and> kind (payload (fst (classifyLine sum_of_products 0 ((line ''sin(x)'')\<lparr>src := js ''2+3*4''\<rparr>)))) = Scalar"
  using classifier_examples [of sum_of_products 0 "line ''sin(x)''"] sum_of_products_14 by simp

text \<open>
  C4 at the line "x=cos(t), y=sin(t), t=[0,2*pi]": whatever the compiler, the line is pushed
  with tmin = -10 and tmax = 10. The line is split on commas before the range is looked for,
  so the part "t=[0" has no closing bracket and no bound is compiled.
\<close>

theorem parametric_range_clause_lost:
  "t_range (payload (fst (classifyLine c a (e\<lparr>src := js ''x=cos(t), y=sin(t), t=[0,2*pi]''\<rparr>))))
     = Some (Fin (- 10), Fin 10)"
proof -
  have "t_range (fst (parametric_out c ps (js ''cos(t)'') (js ''sin(t)'') (Fin (- 10), Fin 10)))
      = Some (Fin (- 10), Fin 10)" for ps
    by (cases "c (js ''cos(t)'')"; cases "c (js ''sin(t)'')") (simp_all add: parametric_out_def)
  then show ?thesis
    by (simp add: classifyLine_core mk_fields core_def line_source_literal branch_of_parametric_example t_bounds_parametric_example)
qed

subsection \<open>The register\<close>

lemma register_after_Cons:
  "register_after a (fst (classifyLine c a e) # out) = register_after (snd (classifyLine c a e)) out"
proof -
  have "(case payload (fst (classifyLine c a e)) of ScalarP (Fin v) \<Rightarrow> v | _ \<Rightarrow> a) = snd (classifyLine c a e)"
    by (rule classifyLine_register [symmetric])
  then show ?thesis
    by (simp add: register_after_def)
qed

lemma compiled_loop_lines:
  "compiled_loop c a out es = (out @ lines_from c a es, register_after a (lines_from c a es))"
proof (induction es arbitrary: a out)
  case Nil
  show ?case by (simp add: register_after_def)
next
  case (Cons e es)
  show ?case
    by (simp add: Cons.IH register_after_Cons)
qed

lemma length_lines_from: "length (lines_from c a es) = length es"
  by (induction es arbitrary: a) simp_all

lemma lines_from_nth:
  "i < length es \<Longrightarrow>
     lines_from c a es ! i = fst (classifyLine c (register_after a (take i (lines_from c a es))) (es ! i))"
proof (induction es arbitrary: a i)
  case Nil
  then show ?case by simp
next
  case (Cons e es)
  show ?case
  proof (cases i)
    case 0
    then show ?thesis by (simp add: register_after_def)
  next
    case (Suc j)
    with Cons.prems have "j < length es" by simp
    from Cons.IH [OF this, of "snd (classifyLine c a e)"] Suc show ?thesis
      by (simp add: register_after_Cons)
  qed
qed

lemma classifyLine_scalar:
  assumes "kind (payload (fst (classifyLine c a e))) = Scalar" and "error (fst (classifyLine c a e)) = []"
  shows "\<exists>ast y. c (line_source e) = Inr ast
           \<and> ast (with_ans (params (fst (classifyLine c a e))) a) = Inr y
           \<and> payload (fst (classifyLine c a e)) = ScalarP (if isFinite y then y else NaN)"
  using core_scalar [of c a "line_params e" "line_source e"] assms
  by (simp add: classifyLine_core mk_fields)

lemma line_source_scalar_lines:
  "line_source (line ''2+3*4'') = js ''2+3*4''" "line_source (line ''ans+1'') = js ''ans+1''"
  by (simp_all add: line_source_def line_def str_simps)

lemma branch_of_ans_example: "branch_of (js ''ans+1'') = BScalar"
  by (simp add: branch_simps str_simps)

lemma two_lines:
  assumes 1: "c (js ''2+3*4'') = Inr ast1" "\<And>env. ast1 env = Inr (Fin 14)"
    and 2: "c (js ''ans+1'') = Inr ast2" "\<And>env r. env (js ''ans'') = Some (Fin r) \<Longrightarrow> ast2 env = Inr (Fin (r + 1))"
  shows "map (\<lambda>l. value_of (payload l)) (compiled c [line ''2+3*4'', line ''ans+1'']) = [Some (Fin 14), Some (Fin 15)]"
proof -
  have s1: "\<And>ps a. scalar_line c ps a (js ''2+3*4'') = ((ScalarP (Fin 14), []), 14)"
    using 1 by (simp add: scalar_line_def Let_def)
  have "\<And>ps. ast2 (with_ans ps 14) = Inr (Fin (14 + 1))"
    by (rule 2(2)) (simp add: with_ans_def)
  then have s2: "\<And>ps. scalar_line c ps 14 (js ''ans+1'') = ((ScalarP (Fin 15), []), 15)"
    using 2(1) by (simp add: scalar_line_def Let_def)
  have l1: "classifyLine c 0 (line ''2+3*4'')
      = (mk (line ''2+3*4'') (line_params (line ''2+3*4'')) (detectParams (src (line ''2+3*4''))) (ScalarP (Fin 14), []), 14)"
    by (simp add: classifyLine_core core_def line_source_scalar_lines branch_of_scalar_example s1)
  have l2: "classifyLine c 14 (line ''ans+1'')
      = (mk (line ''ans+1'') (line_params (line ''ans+1'')) (detectParams (src (line ''ans+1''))) (ScalarP (Fin 15), []), 15)"
    by (simp add: classifyLine_core core_def line_source_scalar_lines branch_of_ans_example s2)
  show ?thesis
    by (simp add: compiled_def l1 l2 mk_fields)
qed

text \<open>
  C2: a line changes the register only when it is a calculator line with a finite value,
  which becomes the register; a calculator line without error holds the value of its text
  under bindings in which \<^verbatim>\<open>ans\<close> is the register before the line, and one with an error
  leaves the register. In the compiled list each line is classified with the register that
  the lines before it leave, starting from 0, and the final register is what all lines
  leave. When "2+3*4" evaluates to 14 and "ans+1" to one more than \<^verbatim>\<open>ans\<close>, the lines
  "2+3*4", "ans+1" have the values 14 and 15.
\<close>

theorem register_threading:
  "snd (classifyLine c a e) = (case payload (fst (classifyLine c a e)) of ScalarP (Fin v) \<Rightarrow> v | _ \<Rightarrow> a)
   \<and> (kind (payload (fst (classifyLine c a e))) = Scalar \<and> error (fst (classifyLine c a e)) = [] \<longrightarrow>
        (\<exists>ast y. c (line_source e) = Inr ast
           \<and> ast (with_ans (params (fst (classifyLine c a e))) a) = Inr y
           \<and> payload (fst (classifyLine c a e)) = ScalarP (if isFinite y then y else NaN)))
   \<and> (kind (payload (fst (classifyLine c a e))) = Scalar \<and> error (fst (classifyLine c a e)) \<noteq> [] \<longrightarrow>
        snd (classifyLine c a e) = a)
   \<and> length (compiled c es) = length es
   \<and> (\<forall>i < length es.
        compiled c es ! i = fst (classifyLine c (register_after 0 (take i (compiled c es))) (es ! i)))
   \<and> final_ans c es = register_after 0 (compiled c es)
   \<and> ((\<exists>ast1 ast2. c (js ''2+3*4'') = Inr ast1 \<and> (\<forall>env. ast1 env = Inr (Fin 14))
          \<and> c (js ''ans+1'') = Inr ast2
          \<and> (\<forall>env r. env (js ''ans'') = Some (Fin r) \<longrightarrow> ast2 env = Inr (Fin (r + 1)))) \<longrightarrow>
        map (\<lambda>l. value_of (payload l)) (compiled c [line ''2+3*4'', line ''ans+1''])
          = [Some (Fin 14), Some (Fin 15)])"
proof (intro conjI impI allI)
  show "snd (classifyLine c a e) = (case payload (fst (classifyLine c a e)) of ScalarP (Fin v) \<Rightarrow> v | _ \<Rightarrow> a)"
    by (rule classifyLine_register)
next
  assume "kind (payload (fst (classifyLine c a e))) = Scalar \<and> error (fst (classifyLine c a e)) = []"
  then show "\<exists>ast y. c (line_source e) = Inr ast
           \<and> ast (with_ans (params (fst (classifyLine c a e))) a) = Inr y
           \<and> payload (fst (classifyLine c a e)) = ScalarP (if isFinite y then y else NaN)"
    using classifyLine_scalar by blast
next
  assume h: "kind (payload (fst (classifyLine c a e))) = Scalar \<and> error (fst (classifyLine c a e)) \<noteq> []"
  with classifyLine_ok [of c e a] have "null_function (payload (fst (classifyLine c a e)))"
    by (simp add: branch_ok_def)
  with h have "payload (fst (classifyLine c a e)) = ScalarP NaN"
    by (cases "payload (fst (classifyLine c a e))") simp_all
  then show "snd (classifyLine c a e) = a"
    by (simp add: classifyLine_register)
next
  show "length (compiled c es) = length es"
    by (simp add: compiled_def compiled_loop_lines length_lines_from)
next
  fix i
  assume "i < length es"
  then show "compiled c es ! i = fst (classifyLine c (register_after 0 (take i (compiled c es))) (es ! i))"
    by (simp add: compiled_def compiled_loop_lines lines_from_nth)
next
  show "final_ans c es = register_after 0 (compiled c es)"
    by (simp add: final_ans_def compiled_def compiled_loop_lines)
next
  assume "\<exists>ast1 ast2. c (js ''2+3*4'') = Inr ast1 \<and> (\<forall>env. ast1 env = Inr (Fin 14))
          \<and> c (js ''ans+1'') = Inr ast2
          \<and> (\<forall>env r. env (js ''ans'') = Some (Fin r) \<longrightarrow> ast2 env = Inr (Fin (r + 1)))"
  then obtain ast1 ast2 where "c (js ''2+3*4'') = Inr ast1" "\<And>env. ast1 env = Inr (Fin 14)"
    "c (js ''ans+1'') = Inr ast2" "\<And>env r. env (js ''ans'') = Some (Fin r) \<Longrightarrow> ast2 env = Inr (Fin (r + 1))"
    by blast
  then show "map (\<lambda>l. value_of (payload l)) (compiled c [line ''2+3*4'', line ''ans+1''])
          = [Some (Fin 14), Some (Fin 15)]"
    by (rule two_lines)
qed

lemma sum_of_products_ans: "\<exists>ast. sum_of_products (js ''ans+1'') = Inr ast
    \<and> (\<forall>env r. env (js ''ans'') = Some (Fin r) \<longrightarrow> ast env = Inr (Fin (r + 1)))"
  by (simp add: sum_of_products_def product_of_def atom_def lift2_def str_simps)

theorem register_threading_witness:
  "map (\<lambda>l. value_of (payload l)) (compiled sum_of_products [line ''2+3*4'', line ''ans+1''])
     = [Some (Fin 14), Some (Fin 15)]
   \<and> final_ans sum_of_products [line ''2+3*4'', line ''ans+1'']
     = register_after 0 (compiled sum_of_products [line ''2+3*4'', line ''ans+1''])"
  using register_threading [of sum_of_products _ _ "[line ''2+3*4'', line ''ans+1'']"] sum_of_products_14 sum_of_products_ans
  by blast

subsection \<open>Compile failures\<close>

lemma range_bound_fails: "bound_fails c env t \<Longrightarrow> range_bound c env (Some t) cur = cur"
  by (cases "c t") (auto simp: bound_fails_def range_bound_def split: sum.splits)

lemma parametric_part_fails:
  assumes "\<forall>t \<in> set (part_bounds p). bound_fails c env t"
  shows "snd (snd (parametric_part c env st p)) = snd (snd st)"
proof -
  obtain xP yP tmin tmax where st: "st = (xP, yP, tmin, tmax)"
    by (cases st) auto
  have r: "\<And>ab i cur. (\<forall>t \<in> set (List.map_filter (nth_opt ab) [0, 1]). bound_fails c env t) \<Longrightarrow> i < 2 \<Longrightarrow>
      range_bound c env (nth_opt ab i) cur = cur"
  proof -
    fix ab :: "jsstring list" and i :: nat and cur
    assume a: "\<forall>t \<in> set (List.map_filter (nth_opt ab) [0, 1]). bound_fails c env t" and i: "i < 2"
    show "range_bound c env (nth_opt ab i) cur = cur"
    proof (cases "nth_opt ab i")
      case None
      then show ?thesis by (simp add: range_bound_def)
    next
      case (Some t)
      from i have "i = 0 \<or> i = 1" by auto
      with Some have "t \<in> set (List.map_filter (nth_opt ab) [0, 1])"
        by (auto simp: List.map_filter_def)
      with a have "bound_fails c env t" by blast
      with Some show ?thesis by (simp add: range_bound_fails)
    qed
  qed
  show ?thesis
  proof (cases "\<not> startsWith p (js ''x='') \<and> \<not> startsWith p (js ''y='') \<and> t_range_test p")
    case False
    then show ?thesis
      unfolding st parametric_part_def by auto
  next
    case t: True
    show ?thesis
    proof (cases "indexOf p (js ''['')")
      case None
      with t show ?thesis
        unfolding st parametric_part_def by simp
    next
      case lb: (Some lb)
      show ?thesis
      proof (cases "indexOf p (js '']'')")
        case None
        with t lb show ?thesis
          unfolding st parametric_part_def by simp
      next
        case rb: (Some rb)
        show ?thesis
        proof (cases "rb > lb")
          case False
          with t lb rb show ?thesis
            unfolding st parametric_part_def by simp
        next
          case True
          define ab where "ab = split_comma_ws [] (take (rb - (lb + 1)) (drop (lb + 1) p))"
          have "part_bounds p = List.map_filter (nth_opt ab) [0, 1]"
            using t lb rb True by (simp add: part_bounds_def Let_def ab_def)
          with assms have a: "\<forall>t \<in> set (List.map_filter (nth_opt ab) [0, 1]). bound_fails c env t"
            by simp
          have "parametric_part c env st p
              = (xP, yP, range_bound c env (nth_opt ab 0) tmin, range_bound c env (nth_opt ab 1) tmax)"
            using t lb rb True unfolding st parametric_part_def by (simp add: Let_def ab_def)
          then show ?thesis
            using r [OF a, of 0 tmin] r [OF a, of 1 tmax] by (simp add: st)
        qed
      qed
    qed
  qed
qed

lemma foldl_parts_fail:
  "\<forall>p \<in> set ps. \<forall>t \<in> set (part_bounds p). bound_fails c env t \<Longrightarrow>
     snd (snd (foldl (parametric_part c env) st ps)) = snd (snd st)"
  by (induction ps arbitrary: st) (simp_all add: parametric_part_fails)

lemma t_bounds_fail:
  assumes "\<forall>t \<in> set (bound_texts s). bound_fails c env t"
  shows "t_bounds c env s = (Fin (- 10), Fin 10)"
proof -
  have "\<forall>p \<in> set (map trim (split_on 44 (replace_semicolons s))). \<forall>t \<in> set (part_bounds p). bound_fails c env t"
    using assms by (auto simp: bound_texts_def)
  from foldl_parts_fail [OF this] show ?thesis
    by (simp add: t_bounds_def)
qed

lemma core_clean:
  assumes "branch_kind (branch_of s) \<noteq> Implicit" and "branch_kind (branch_of s) \<noteq> Scalar"
    and "\<forall>t \<in> set (branch_texts s). \<not> isl (c t)"
  shows "snd (fst (core c a ps s)) = [] \<and> all_functions (fst (fst (core c a ps s)))"
proof (cases "branch_of s")
  case (BExplicit g)
  with assms show ?thesis
    by (cases "c g") (simp_all add: core_def branch_texts_def explicit_line_def)
next
  case (BPolar g)
  with assms show ?thesis
    by (cases "c g"; cases "match_theta_range s")
       (auto simp: core_def branch_texts_def polar_line_def)
next
  case (BParametric x y)
  with assms show ?thesis
    by (cases "c x"; cases "c y") (simp_all add: core_def branch_texts_def parametric_out_def)
next
  case (BDouble tA op1 tB op2 tC)
  with assms show ?thesis
    by (cases "c tA"; cases "c tB"; cases "c tC")
       (simp_all add: core_def branch_texts_def double_line_def)
next
  case (BInequality op i)
  with assms show ?thesis
    by (cases "c (take i s)"; cases "c (drop (i + length op) s)")
       (simp_all add: core_def branch_texts_def inequality_line_def)
next
  case BImplicit
  with assms show ?thesis by simp
next
  case BScalar
  with assms show ?thesis by simp
next
  case BFallback
  with assms show ?thesis
    by (cases "c s") (simp_all add: core_def branch_texts_def explicit_line_def)
qed

lemma core_polar_range:
  assumes "branch_of s = BPolar g" and "\<not> isl (c g)" and "match_theta_range s = Some (ta, tb)"
  shows "th_range (fst (fst (core c a ps s)))
           = Some (range_bound c (with_ans ps a) (Some ta) (Fin 0),
                   range_bound c (with_ans ps a) (Some tb) (Fin (2 * pi)))"
  using assms by (cases "c g") (simp_all add: core_def polar_line_def)

lemma core_parametric_range:
  assumes "branch_of s = BParametric x y" and "\<not> isl (c x)" and "\<not> isl (c y)"
  shows "t_range (fst (fst (core c a ps s))) = Some (t_bounds c (with_ans ps a) s)"
  using assms by (cases "c x"; cases "c y") (simp_all add: core_def parametric_out_def)

text \<open>
  C5, as the code has it. The kind of a line is that of the branch its text selects,
  whatever compiles. When one of the texts the branch compiles for its functions fails, the
  line has no function and carries the message of a failed text. A line with an error has
  no function and a line without error has all its functions. The bounds of a range are
  not among these texts, and a bound that fails is swallowed: a line of any kind but
  implicit and calculator whose function texts compile has no error and all its functions,
  whatever its bounds do; a bound of a polar line that fails leaves \<^verbatim>\<open>thmin\<close> at 0 or \<^verbatim>\<open>thmax\<close>
  at \<open>2\<pi>\<close>; a parametric line all of whose bounds fail has the range from -10 to 10.
\<close>

theorem compile_failure_keeps_branch:
  "kind (payload (fst (classifyLine c a e))) = kind (payload (fst (classifyLine c' a' e)))
   \<and> kind (payload (fst (classifyLine c a e))) = branch_kind (branch_of (line_source e))
   \<and> ((\<exists>t \<in> set (branch_texts (line_source e)). isl (c t)) \<longrightarrow>
        null_function (payload (fst (classifyLine c a e)))
        \<and> error (fst (classifyLine c a e)) \<noteq> []
        \<and> (\<exists>t \<in> set (branch_texts (line_source e)). \<exists>msg.
              c t = Inl msg \<and> error (fst (classifyLine c a e)) = message_of msg))
   \<and> (error (fst (classifyLine c a e)) \<noteq> [] \<longrightarrow> null_function (payload (fst (classifyLine c a e))))
   \<and> (error (fst (classifyLine c a e)) = [] \<longrightarrow> all_functions (payload (fst (classifyLine c a e))))
   \<and> (branch_kind (branch_of (line_source e)) \<noteq> Implicit
        \<and> branch_kind (branch_of (line_source e)) \<noteq> Scalar
        \<and> (\<forall>t \<in> set (branch_texts (line_source e)). \<not> isl (c t)) \<longrightarrow>
        error (fst (classifyLine c a e)) = [] \<and> all_functions (payload (fst (classifyLine c a e))))
   \<and> (\<forall>g ta tb. branch_of (line_source e) = BPolar g \<and> \<not> isl (c g)
          \<and> match_theta_range (line_source e) = Some (ta, tb) \<longrightarrow>
        (\<exists>lo hi. th_range (payload (fst (classifyLine c a e))) = Some (lo, hi)
           \<and> (bound_fails c (with_ans (line_params e) a) ta \<longrightarrow> lo = Fin 0)
           \<and> (bound_fails c (with_ans (line_params e) a) tb \<longrightarrow> hi = Fin (2 * pi))))
   \<and> (branch_kind (branch_of (line_source e)) = Parametric
        \<and> (\<forall>t \<in> set (branch_texts (line_source e)). \<not> isl (c t))
        \<and> (\<forall>t \<in> set (bound_texts (line_source e)). bound_fails c (with_ans (line_params e) a) t) \<longrightarrow>
        t_range (payload (fst (classifyLine c a e))) = Some (Fin (- 10), Fin 10))"
proof -
  have ok: "branch_ok c (branch_texts (line_source e)) (branch_kind (branch_of (line_source e)))
     (payload (fst (classifyLine c a e)), error (fst (classifyLine c a e)))"
    by (rule classifyLine_ok)
  have 1: "kind (payload (fst (classifyLine c a e))) = kind (payload (fst (classifyLine c' a' e)))"
    by (simp add: classifyLine_kind)
  have 2: "kind (payload (fst (classifyLine c a e))) = branch_kind (branch_of (line_source e))"
    by (rule classifyLine_kind)
  have 3: "(\<exists>t \<in> set (branch_texts (line_source e)). isl (c t)) \<longrightarrow>
        null_function (payload (fst (classifyLine c a e)))
        \<and> error (fst (classifyLine c a e)) \<noteq> []
        \<and> (\<exists>t \<in> set (branch_texts (line_source e)). \<exists>msg.
              c t = Inl msg \<and> error (fst (classifyLine c a e)) = message_of msg)"
  proof
    assume "\<exists>t \<in> set (branch_texts (line_source e)). isl (c t)"
    with ok have n: "null_function (payload (fst (classifyLine c a e)))"
      and m: "\<exists>t \<in> set (branch_texts (line_source e)). \<exists>msg.
              c t = Inl msg \<and> error (fst (classifyLine c a e)) = message_of msg"
      unfolding branch_ok_def by simp_all
    from m obtain msg where "error (fst (classifyLine c a e)) = message_of msg"
      by blast
    then have "error (fst (classifyLine c a e)) \<noteq> []"
      by (simp add: message_of_nonempty)
    with n m show "null_function (payload (fst (classifyLine c a e)))
        \<and> error (fst (classifyLine c a e)) \<noteq> []
        \<and> (\<exists>t \<in> set (branch_texts (line_source e)). \<exists>msg.
              c t = Inl msg \<and> error (fst (classifyLine c a e)) = message_of msg)"
      by blast
  qed
  have 4: "error (fst (classifyLine c a e)) \<noteq> [] \<longrightarrow> null_function (payload (fst (classifyLine c a e)))"
    using ok unfolding branch_ok_def by simp
  have 5: "error (fst (classifyLine c a e)) = [] \<longrightarrow> all_functions (payload (fst (classifyLine c a e)))"
    using ok unfolding branch_ok_def by simp
  have 6: "branch_kind (branch_of (line_source e)) \<noteq> Implicit
        \<and> branch_kind (branch_of (line_source e)) \<noteq> Scalar
        \<and> (\<forall>t \<in> set (branch_texts (line_source e)). \<not> isl (c t)) \<longrightarrow>
        error (fst (classifyLine c a e)) = [] \<and> all_functions (payload (fst (classifyLine c a e)))"
    using core_clean [of "line_source e" c a "line_params e"]
    by (simp add: classifyLine_core mk_fields)
  have 7: "\<forall>g ta tb. branch_of (line_source e) = BPolar g \<and> \<not> isl (c g)
          \<and> match_theta_range (line_source e) = Some (ta, tb) \<longrightarrow>
        (\<exists>lo hi. th_range (payload (fst (classifyLine c a e))) = Some (lo, hi)
           \<and> (bound_fails c (with_ans (line_params e) a) ta \<longrightarrow> lo = Fin 0)
           \<and> (bound_fails c (with_ans (line_params e) a) tb \<longrightarrow> hi = Fin (2 * pi)))"
  proof (intro allI impI)
    fix g ta tb
    assume h: "branch_of (line_source e) = BPolar g \<and> \<not> isl (c g)
          \<and> match_theta_range (line_source e) = Some (ta, tb)"
    then have "th_range (payload (fst (classifyLine c a e)))
        = Some (range_bound c (with_ans (line_params e) a) (Some ta) (Fin 0),
                range_bound c (with_ans (line_params e) a) (Some tb) (Fin (2 * pi)))"
      using core_polar_range [of "line_source e" g c ta tb a "line_params e"]
      by (simp add: classifyLine_core mk_fields)
    then show "\<exists>lo hi. th_range (payload (fst (classifyLine c a e))) = Some (lo, hi)
           \<and> (bound_fails c (with_ans (line_params e) a) ta \<longrightarrow> lo = Fin 0)
           \<and> (bound_fails c (with_ans (line_params e) a) tb \<longrightarrow> hi = Fin (2 * pi))"
      by (simp add: range_bound_fails)
  qed
  have 8: "branch_kind (branch_of (line_source e)) = Parametric
        \<and> (\<forall>t \<in> set (branch_texts (line_source e)). \<not> isl (c t))
        \<and> (\<forall>t \<in> set (bound_texts (line_source e)). bound_fails c (with_ans (line_params e) a) t) \<longrightarrow>
        t_range (payload (fst (classifyLine c a e))) = Some (Fin (- 10), Fin 10)"
  proof
    assume h: "branch_kind (branch_of (line_source e)) = Parametric
        \<and> (\<forall>t \<in> set (branch_texts (line_source e)). \<not> isl (c t))
        \<and> (\<forall>t \<in> set (bound_texts (line_source e)). bound_fails c (with_ans (line_params e) a) t)"
    then obtain x y where b: "branch_of (line_source e) = BParametric x y"
      by (cases "branch_of (line_source e)") simp_all
    with h have "\<not> isl (c x)" "\<not> isl (c y)"
      by (simp_all add: branch_texts_def)
    with b have "t_range (payload (fst (classifyLine c a e)))
        = Some (t_bounds c (with_ans (line_params e) a) (line_source e))"
      using core_parametric_range [of "line_source e" x y c a "line_params e"]
      by (simp add: classifyLine_core mk_fields)
    with h show "t_range (payload (fst (classifyLine c a e))) = Some (Fin (- 10), Fin 10)"
      by (simp add: t_bounds_fail)
  qed
  from 1 2 3 4 5 6 7 8 show ?thesis by blast
qed

lemma line_source_parametric_lines:
  "line_source (line ''x=cos(t), y=sin(t)'') = js ''x=cos(t), y=sin(t)''"
  "line_source (line ''x=t, y=t, t=[1+]'') = js ''x=t, y=t, t=[1+]''"
  "line_source (line ''x=t, y=t, t=[7]'') = js ''x=t, y=t, t=[7]''"
  by (simp_all add: line_source_def line_def str_simps)

lemma branch_of_circle_example: "branch_of (js ''x=cos(t), y=sin(t)'') = BParametric (js ''cos(t)'') (js ''sin(t)'')"
  by (simp add: branch_simps str_simps)

lemma branch_of_bad_bound_example: "branch_of (js ''x=t, y=t, t=[1+]'') = BParametric (js ''t'') (js ''t'')"
  by (simp add: branch_simps str_simps)

lemma branch_of_bound_example: "branch_of (js ''x=t, y=t, t=[7]'') = BParametric (js ''t'') (js ''t'')"
  by (simp add: branch_simps str_simps)

lemma sum_of_products_cos: "isl (sum_of_products (js ''cos(t)''))"
  by (simp add: sum_of_products_def product_of_def atom_def str_simps)

lemma sum_of_products_bad: "isl (sum_of_products (js ''1+''))"
  by (simp add: sum_of_products_def product_of_def atom_def str_simps)

lemma sum_of_products_t: "\<not> isl (sum_of_products (js ''t''))"
  by (simp add: sum_of_products_def product_of_def atom_def str_simps)

lemma sum_of_products_7: "\<exists>ast. sum_of_products (js ''7'') = Inr ast \<and> (\<forall>env. ast env = Inr (Fin 7))"
  by (simp add: sum_of_products_def product_of_def atom_def lift2_def str_simps)

lemma t_bounds_bad_bound: "t_bounds sum_of_products env (js ''x=t, y=t, t=[1+]'') = (Fin (- 10), Fin 10)"
  using sum_of_products_bad by (cases "sum_of_products (js ''1+'')") (simp_all add: t_bounds_def branch_simps str_simps)

lemma t_bounds_bound: "t_bounds sum_of_products env (js ''x=t, y=t, t=[7]'') = (Fin 7, Fin 10)"
  using sum_of_products_7 by (auto simp: t_bounds_def branch_simps str_simps)

lemma line_source_polar_bound: "line_source (line ''r=theta, theta=[1+, 2]'') = js ''r=theta, theta=[1+, 2]''"
  by (simp add: line_source_def line_def str_simps)

lemma branch_of_polar_bound: "branch_of (js ''r=theta, theta=[1+, 2]'') = BPolar (js ''theta'')"
  by (simp add: branch_simps str_simps)

lemma match_theta_range_polar_bound:
  "match_theta_range (js ''r=theta, theta=[1+, 2]'') = Some (js ''1+'', js ''2'')"
  by (simp add: str_simps)

lemma sum_of_products_theta: "\<not> isl (sum_of_products (js ''theta''))"
  by (simp add: sum_of_products_def product_of_def atom_def str_simps)

theorem compile_failure_keeps_branch_witness:
  "(\<exists>t \<in> set (branch_texts (line_source (line ''x=cos(t), y=sin(t)''))). isl (sum_of_products t))
   \<and> kind (payload (fst (classifyLine sum_of_products 0 (line ''x=cos(t), y=sin(t)'')))) = Parametric
   \<and> null_function (payload (fst (classifyLine sum_of_products 0 (line ''x=cos(t), y=sin(t)''))))
   \<and> error (fst (classifyLine sum_of_products 0 (line ''x=cos(t), y=sin(t)''))) \<noteq> []
   \<and> bound_fails sum_of_products (with_ans (line_params (line ''r=theta, theta=[1+, 2]'')) 0) (js ''1+'')
   \<and> kind (payload (fst (classifyLine sum_of_products 0 (line ''r=theta, theta=[1+, 2]'')))) = Polar
   \<and> error (fst (classifyLine sum_of_products 0 (line ''r=theta, theta=[1+, 2]''))) = []
   \<and> all_functions (payload (fst (classifyLine sum_of_products 0 (line ''r=theta, theta=[1+, 2]''))))
   \<and> map_option fst (th_range (payload (fst (classifyLine sum_of_products 0 (line ''r=theta, theta=[1+, 2]'')))))
       = Some (Fin 0)"
proof -
  have t: "branch_texts (line_source (line ''x=cos(t), y=sin(t)'')) = [js ''cos(t)'', js ''sin(t)'']"
    by (simp add: branch_texts_def line_source_parametric_lines branch_of_circle_example)
  have f: "\<exists>t \<in> set (branch_texts (line_source (line ''x=cos(t), y=sin(t)''))). isl (sum_of_products t)"
    unfolding t using sum_of_products_cos by simp
  have 1: "kind (payload (fst (classifyLine sum_of_products 0 (line ''x=cos(t), y=sin(t)'')))) = Parametric
   \<and> null_function (payload (fst (classifyLine sum_of_products 0 (line ''x=cos(t), y=sin(t)''))))
   \<and> error (fst (classifyLine sum_of_products 0 (line ''x=cos(t), y=sin(t)''))) \<noteq> []"
    using f compile_failure_keeps_branch [of sum_of_products 0 "line ''x=cos(t), y=sin(t)''" sum_of_products 0]
    by (simp add: line_source_parametric_lines branch_of_circle_example)
  have b: "bound_fails sum_of_products (with_ans (line_params (line ''r=theta, theta=[1+, 2]'')) 0) (js ''1+'')"
    using sum_of_products_bad by (cases "sum_of_products (js ''1+'')") (simp_all add: bound_fails_def)
  have p: "branch_texts (js ''r=theta, theta=[1+, 2]'') = [js ''theta'']"
    by (simp add: branch_texts_def branch_of_polar_bound)
  have 2: "kind (payload (fst (classifyLine sum_of_products 0 (line ''r=theta, theta=[1+, 2]'')))) = Polar
   \<and> error (fst (classifyLine sum_of_products 0 (line ''r=theta, theta=[1+, 2]''))) = []
   \<and> all_functions (payload (fst (classifyLine sum_of_products 0 (line ''r=theta, theta=[1+, 2]''))))
   \<and> map_option fst (th_range (payload (fst (classifyLine sum_of_products 0 (line ''r=theta, theta=[1+, 2]'')))))
       = Some (Fin 0)"
    using b sum_of_products_theta
      compile_failure_keeps_branch [of sum_of_products 0 "line ''r=theta, theta=[1+, 2]''" sum_of_products 0]
    by (auto simp: p line_source_polar_bound branch_of_polar_bound match_theta_range_polar_bound)
  from f 1 b 2 show ?thesis by blast
qed

text \<open>
  C5 as stated fails for the bound of a range: in "x=t, y=t, t=[7]" the parametric branch
  compiles the bound and tmin is 7; in "x=t, y=t, t=[1+]" the bound does not compile, and the
  line is pushed with both functions, the default range and no error.
\<close>

theorem range_bound_failure_counterexample:
  "isl (sum_of_products (js ''1+''))
   \<and> t_range (payload (fst (classifyLine sum_of_products 0 (line ''x=t, y=t, t=[7]'')))) = Some (Fin 7, Fin 10)
   \<and> t_range (payload (fst (classifyLine sum_of_products 0 (line ''x=t, y=t, t=[1+]'')))) = Some (Fin (- 10), Fin 10)
   \<and> \<not> null_function (payload (fst (classifyLine sum_of_products 0 (line ''x=t, y=t, t=[1+]''))))
   \<and> error (fst (classifyLine sum_of_products 0 (line ''x=t, y=t, t=[1+]''))) = []"
proof -
  obtain ast where ast: "sum_of_products (js ''t'') = Inr ast"
    using sum_of_products_t by (cases "sum_of_products (js ''t'')") simp_all
  have p: "\<And>ps tb. parametric_out sum_of_products ps (js ''t'') (js ''t'') tb
      = (ParametricP (Some (closure1 ast ps ''t'')) (Some (closure1 ast ps ''t'')) (fst tb) (snd tb), [])"
    by (simp add: parametric_out_def ast)
  show ?thesis
    by (simp add: sum_of_products_bad classifyLine_core mk_fields core_def line_source_parametric_lines branch_of_bad_bound_example branch_of_bound_example t_bounds_bad_bound t_bounds_bound p)
qed

text \<open>
  No parametric line ever gets a second bound: a part holds no comma, so the text between
  its brackets is one element and \<^verbatim>\<open>b\<close> is undefined.
\<close>

lemma split_on_no_sep: "p \<in> set (split_on d s) \<Longrightarrow> d \<notin> set p"
proof (induction s arbitrary: p)
  case Nil
  then show ?case by simp
next
  case (Cons c cs)
  show ?case
  proof (cases "c = d")
    case True
    with Cons show ?thesis by auto
  next
    case False
    obtain q qs where q: "split_on d cs = q # qs"
      by (cases "split_on d cs") (auto split: if_splits list.splits elim: split_on.elims)
    with False Cons.prems have "p = c # q \<or> p \<in> set qs" by simp
    with Cons.IH q False show ?thesis by auto
  qed
qed

lemma split_comma_ws_no_comma: "44 \<notin> set s \<Longrightarrow> split_comma_ws cur s = [rev cur @ s]"
proof (induction s arbitrary: cur)
  case Nil
  show ?case by simp
next
  case (Cons c cs)
  have "match_comma_sep (c # cs) = None"
  proof (cases "dropWhile is_space (c # cs)")
    case Nil
    then show ?thesis by (simp add: match_comma_sep_def)
  next
    case (Cons h r)
    then have "h \<in> set (dropWhile is_space (c # cs))" by simp
    then have "h \<in> set (c # cs)" by (rule set_dropWhileD)
    with Cons.prems have "h \<noteq> 44" by auto
    with Cons show ?thesis by (simp add: match_comma_sep_def)
  qed
  moreover from Cons.prems have "44 \<notin> set cs" by simp
  ultimately show ?case
    using Cons.IH [of "c # cur"] by simp
qed

lemma parametric_part_tmax:
  assumes "44 \<notin> set p"
  shows "snd (snd (snd (parametric_part c env st p))) = snd (snd (snd st))"
proof -
  obtain xP yP tmin tmax where st: "st = (xP, yP, tmin, tmax)"
    by (cases st) auto
  have "\<And>i j. 44 \<notin> set (take i (drop j p))"
    using assms by (meson in_set_dropD in_set_takeD)
  then have "\<And>i j. nth_opt (split_comma_ws [] (take i (drop j p))) 1 = None"
    by (simp add: split_comma_ws_no_comma nth_opt_def)
  then show ?thesis
    unfolding st parametric_part_def Let_def
    by (simp add: range_bound_def split: option.splits)
qed

lemma trim_subset: "set (trim s) \<subseteq> set s"
proof
  fix x
  assume "x \<in> set (trim s)"
  then have "x \<in> set (dropWhile is_space (rev (dropWhile is_space s)))"
    by (simp add: trim_def)
  then have "x \<in> set (rev (dropWhile is_space s))"
    by (rule set_dropWhileD)
  then have "x \<in> set (dropWhile is_space s)"
    by simp
  then show "x \<in> set s"
    by (rule set_dropWhileD)
qed

lemma foldl_parts_tmax:
  "\<forall>p \<in> set ps. 44 \<notin> set p \<Longrightarrow>
     snd (snd (snd (foldl (parametric_part c env) st ps))) = snd (snd (snd st))"
  by (induction ps arbitrary: st) (simp_all add: parametric_part_tmax)

lemma t_bounds_tmax: "snd (t_bounds c env s) = Fin 10"
proof -
  have "\<forall>p \<in> set (map trim (split_on 44 (replace_semicolons s))). 44 \<notin> set p"
    using split_on_no_sep [of _ 44 "replace_semicolons s"] trim_subset by fastforce
  from foldl_parts_tmax [OF this] show ?thesis
    by (simp add: t_bounds_def)
qed

lemma parametric_tmax_default:
  assumes "t_range (payload (fst (classifyLine c a e))) = Some (lo, hi)"
  shows "hi = Fin 10"
proof -
  from assms have "kind (payload (fst (classifyLine c a e))) = Parametric"
    by (cases "payload (fst (classifyLine c a e))") simp_all
  then have "branch_kind (branch_of (line_source e)) = Parametric"
    by (simp add: classifyLine_kind)
  then obtain x y where b: "branch_of (line_source e) = BParametric x y"
    by (cases "branch_of (line_source e)") simp_all
  have "payload (fst (classifyLine c a e))
      = fst (parametric_out c (line_params e) x y (t_bounds c (with_ans (line_params e) a) (line_source e)))"
    by (simp add: classifyLine_core mk_fields core_def b)
  with assms show ?thesis
    by (cases "c x"; cases "c y") (auto simp: parametric_out_def t_bounds_tmax)
qed

section \<open>Properties of fit to data\<close>

lemma sample_loop_flat:
  assumes "fn (payload e) = Some f" and "\<And>x. f a x = Inr (Fin c)"
  shows "sample_loop a xs [e] is (Fin c, Fin c) = Inr (Fin c, Fin c)"
  by (induction "is") (simp_all add: assms)

lemma sample_loop_flat_start:
  assumes "fn (payload e) = Some f" and "\<And>x. f a x = Inr (Fin c)"
  shows "sample_loop a xs [e] (i # is) (PosInf, NegInf) = Inr (Fin c, Fin c)"
  using sample_loop_flat [OF assms] by (simp add: assms)

lemma sample_loop_throws:
  assumes "fn (payload e1) = Some f" and "\<And>x. f a x = Inr (Fin c)"
    and "fn (payload e2) = Some g" and "\<And>x. g a x = Inl msg"
  shows "sample_loop a xs [e1, e2] (i # is) acc = Inl msg"
  by (simp add: assms)

lemma line_source_fit_lines:
  "line_source (line ''y = 5'') = js ''y = 5''" "line_source (line ''y = x + t'') = js ''y = x + t''"
  by (simp_all add: line_source_def line_def str_simps)

lemma branch_of_fit_lines:
  "branch_of (js ''y = 5'') = BExplicit (js ''5'')" "branch_of (js ''y = x + t'') = BExplicit (js ''x + t'')"
  by (simp_all add: branch_simps str_simps)

lemma line_params_fit_line: "line_params (line ''y = x + t'') = Map.empty"
  by (simp add: line_params_def line_def detectParams_def RESERVED_def str_simps)

lemma fit_lines:
  assumes "c (js ''5'') = Inr ast1" and "c (js ''x + t'') = Inr ast2"
  shows "fst (classifyLine c a (line ''y = 5''))
           = mk (line ''y = 5'') (line_params (line ''y = 5'')) (detectParams (src (line ''y = 5'')))
               (ExplicitP (Some (closure1 ast1 (line_params (line ''y = 5'')) ''x'')), [])"
    and "snd (classifyLine c a (line ''y = 5'')) = a"
    and "fst (classifyLine c a (line ''y = x + t''))
           = mk (line ''y = x + t'') Map.empty (detectParams (src (line ''y = x + t'')))
               (ExplicitP (Some (closure1 ast2 Map.empty ''x'')), [])"
  using assms
  by (simp_all add: classifyLine_core core_def line_source_fit_lines branch_of_fit_lines
        explicit_line_def line_params_fit_line)

lemma flat_pad: "rnd 4 = Fin 4" "rnd 6 = Fin 6"
  using rnd_int [of 4] rnd_int [of 6] by simp_all

text \<open>
  C9 at the two visible lines "y = 5" and "y = x + t", for a compiler that accepts both
  texts and whose expression for "x + t" throws when it is evaluated without a value for
  \<^verbatim>\<open>t\<close>, a reserved name that no slider binds. With the first line alone the view gets the
  y-range from 4 to 6. The second line is explicit, has a function and no error, so it is
  sampled; its function throws at the first abscissa, nothing in \<^verbatim>\<open>fitToData\<close> catches the
  exception, and \<^verbatim>\<open>setView\<close> is never reached: the view stays as it was although the first
  curve has a finite sample at every abscissa.
\<close>

theorem fitToData_throwing_curve:
  assumes "c (js ''5'') = Inr ast1" and "\<And>env. ast1 env = Inr (Fin 5)"
    and "c (js ''x + t'') = Inr ast2" and "\<And>env. env (js ''t'') = None \<Longrightarrow> ast2 env = Inl msg"
  shows "fitToData a (compiled c [line ''y = 5'']) v = Inr (v\<lparr>yMin := Fin 4, yMax := Fin 6\<rparr>)
       \<and> visible (compiled c [line ''y = 5'', line ''y = x + t''] ! 1)
       \<and> kind (payload (compiled c [line ''y = 5'', line ''y = x + t''] ! 1)) = Explicit
       \<and> fn (payload (compiled c [line ''y = 5'', line ''y = x + t''] ! 1)) \<noteq> None
       \<and> error (compiled c [line ''y = 5'', line ''y = x + t''] ! 1) = []
       \<and> fitToData a (compiled c [line ''y = 5'', line ''y = x + t'']) v = Inl msg"
proof -
  define e1 where "e1 = fst (classifyLine c 0 (line ''y = 5''))"
  define e2 where "e2 = fst (classifyLine c 0 (line ''y = x + t''))"
  define f where "f = closure1 ast1 (line_params (line ''y = 5'')) ''x''"
  define g where "g = closure1 ast2 Map.empty ''x''"
  note l = fit_lines [OF assms(1) assms(3)]
  have c1: "compiled c [line ''y = 5''] = [e1]"
    by (simp add: compiled_def e1_def)
  have c2: "compiled c [line ''y = 5'', line ''y = x + t''] = [e1, e2]"
    by (simp add: compiled_def e1_def e2_def l(2))
  have vis: "\<And>s. visible (line s)"
    by (simp add: line_def)
  have p1: "payload e1 = ExplicitP (Some f)" "error e1 = []" "visible e1"
    by (simp_all add: e1_def l(1) mk_fields f_def vis)
  have p2: "payload e2 = ExplicitP (Some g)" "error e2 = []" "visible e2"
    by (simp_all add: e2_def l(3) mk_fields g_def vis)
  have f: "\<And>x. f a x = Inr (Fin 5)"
    by (simp add: f_def closure1_def assms(2))
  have "\<And>x. ((with_ans Map.empty a)(js ''x'' \<mapsto> x)) (js ''t'') = None"
    by (simp add: with_ans_def js_def)
  then have g: "\<And>x. g a x = Inl msg"
    unfolding g_def closure1_def by (rule assms(4))
  define rest where "rest = [Suc 0..<Suc 800]"
  have u: "[0..<Suc 800] = 0 # rest"
    unfolding rest_def by (rule upt_conv_Cons) simp
  have 1: "fitToData a (compiled c [line ''y = 5'']) v = Inr (v\<lparr>yMin := Fin 4, yMax := Fin 6\<rparr>)"
    unfolding c1 fitToData_def Let_def u
    using sample_loop_flat_start [of e1 f a 5]
    by (simp add: p1 f flat_pad dsub_def)
  have 2: "fitToData a (compiled c [line ''y = 5'', line ''y = x + t'']) v = Inl msg"
    unfolding c2 fitToData_def Let_def u
    using sample_loop_throws [of e1 f a 5 e2 g msg]
    by (simp add: p1 p2 f g)
  show ?thesis
    using 1 2 by (simp add: c2 p2)
qed

lemma sum_of_products_5: "\<exists>ast. sum_of_products (js ''5'') = Inr ast \<and> (\<forall>env. ast env = Inr (Fin 5))"
  by (simp add: sum_of_products_def product_of_def atom_def lift2_def str_simps)

lemma sum_of_products_x_t:
  "\<exists>ast. sum_of_products (js ''x + t'') = Inr ast
     \<and> (\<forall>env. env (js ''t'') = None \<longrightarrow> ast env = Inl ''undefined variable'')"
  by (auto simp: sum_of_products_def product_of_def atom_def lift2_def str_simps
           split: option.splits sum.splits number.splits)

theorem fitToData_throwing_curve_witness:
  "fitToData 0 (compiled sum_of_products [line ''y = 5''])
       \<lparr>xMin = Fin (- 10), xMax = Fin 10, yMin = Fin (- 6), yMax = Fin 6\<rparr>
     = Inr \<lparr>xMin = Fin (- 10), xMax = Fin 10, yMin = Fin 4, yMax = Fin 6\<rparr>
   \<and> fitToData 0 (compiled sum_of_products [line ''y = 5'', line ''y = x + t''])
       \<lparr>xMin = Fin (- 10), xMax = Fin 10, yMin = Fin (- 6), yMax = Fin 6\<rparr>
     = Inl ''undefined variable''"
proof -
  obtain ast1 where ast1: "sum_of_products (js ''5'') = Inr ast1" "\<And>env. ast1 env = Inr (Fin 5)"
    using sum_of_products_5 by blast
  obtain ast2 where ast2: "sum_of_products (js ''x + t'') = Inr ast2"
      "\<And>env. env (js ''t'') = None \<Longrightarrow> ast2 env = Inl ''undefined variable''"
    using sum_of_products_x_t by blast
  from fitToData_throwing_curve [of sum_of_products ast1 ast2 "''undefined variable''" 0
      "\<lparr>xMin = Fin (- 10), xMax = Fin 10, yMin = Fin (- 6), yMax = Fin 6\<rparr>", OF ast1 ast2]
  show ?thesis by simp
qed

end
